theory Spec2Isabelle
  imports Main "HOL-Library.AList" "HOL-Library.Multiset"
begin

section \<open>Values of the request bodies and of the stored documents\<close>

text \<open>
  The backend (\<^verbatim>\<open>src/backend/server.js\<close>) receives request bodies parsed by
  \<^verbatim>\<open>express.json()\<close> and reads documents back from the document store; both are JSON
  values. A property that is not there reads as \<^verbatim>\<open>undefined\<close>, which is a value of
  its own here. An object is the list of its own properties in insertion order.

  The handlers look at a number only through its truth value and its conversion to a
  property key, and otherwise store it unchanged; \<open>JNum\<close> therefore carries the number
  as the text that JavaScript's number-to-string conversion gives it (\<^verbatim>\<open>0\<close> and
  \<^verbatim>\<open>-0\<close> both read \<^verbatim>\<open>"0"\<close>).
\<close>

datatype json =
    JUndefined
  | JNull
  | JBool bool
  | JNum string
  | JStr string
  | JArr "json list"
  | JObj "(string \<times> json) list"

type_synonym document = "(string \<times> json) list"

text \<open>
  What reaches a handler's \<^verbatim>\<open>catch (err)\<close>: a rejected call of the store client, or
  the \<^verbatim>\<open>TypeError\<close> of a failed conversion of an object to a primitive. Both carry
  \<^verbatim>\<open>err.message\<close>.
\<close>

datatype exn = StorageError string | TypeError string

fun message :: "exn \<Rightarrow> string" where
  "message (StorageError m) = m"
| "message (TypeError m) = m"

text \<open>\<^verbatim>\<open>ToBoolean\<close>: what \<^verbatim>\<open>!v\<close> and \<^verbatim>\<open>v || d\<close> test.\<close>

fun truthy :: "json \<Rightarrow> bool" where
  "truthy JUndefined = False"
| "truthy JNull = False"
| "truthy (JBool b) = b"
| "truthy (JNum r) = (r \<noteq> ''0'' \<and> r \<noteq> ''NaN'')"
| "truthy (JStr s) = (s \<noteq> [])"
| "truthy (JArr xs) = True"
| "truthy (JObj ps) = True"

text \<open>\<^verbatim>\<open>a || b\<close> on values.\<close>

definition or_else :: "json \<Rightarrow> json \<Rightarrow> json" where
  "or_else a b = (if truthy a then a else b)"

text \<open>
  \<^verbatim>\<open>o.k\<close> for the property names the handlers read (\<^verbatim>\<open>type\<close>, \<^verbatim>\<open>volume\<close>,
  \<^verbatim>\<open>location\<close>, \<^verbatim>\<open>user\<close>, \<^verbatim>\<open>uid\<close>, \<^verbatim>\<open>email\<close>, \<^verbatim>\<open>title\<close>,
  \<^verbatim>\<open>description\<close>, \<^verbatim>\<open>date\<close>, \<^verbatim>\<open>submitterId\<close>): none of them is inherited from a
  prototype, so the read is a look-up among the own properties of an object and
  \<^verbatim>\<open>undefined\<close> on a boolean, a number, a string or an array. \<open>opt_prop\<close> is
  \<^verbatim>\<open>o?.k\<close>, which is \<^verbatim>\<open>undefined\<close> on \<^verbatim>\<open>undefined\<close> and \<^verbatim>\<open>null\<close> too, where
  \<^verbatim>\<open>o.k\<close> would throw.
\<close>

definition field :: "document \<Rightarrow> string \<Rightarrow> json" where
  "field d k = (case map_of d k of None \<Rightarrow> JUndefined | Some v \<Rightarrow> v)"

fun read_prop :: "json \<Rightarrow> string \<Rightarrow> json" where
  "read_prop (JObj ps) k = field ps k"
| "read_prop v k = JUndefined"

definition opt_prop :: "json \<Rightarrow> string \<Rightarrow> json" where
  "opt_prop v k = (if v = JUndefined \<or> v = JNull then JUndefined else read_prop v k)"

subsection \<open>Conversion to a property key\<close>

text \<open>
  \<^verbatim>\<open>Array.prototype.join\<close> with the separator \<^verbatim>\<open>","\<close>, on the converted elements;
  the first element whose conversion throws ends it.
\<close>

fun join :: "(exn + string) list \<Rightarrow> exn + string" where
  "join [] = Inr []"
| "join [x] = x"
| "join (x # y # ys) =
     (case x of
        Inl e \<Rightarrow> Inl e
      | Inr s \<Rightarrow> (case join (y # ys) of Inl e \<Rightarrow> Inl e | Inr r \<Rightarrow> Inr (s @ '','' @ r)))"

definition cannot_convert :: exn where
  "cannot_convert = TypeError ''Cannot convert object to primitive value''"

text \<open>
  \<^verbatim>\<open>ToString\<close>, which is what \<^verbatim>\<open>obj[t]\<close> applies to \<^verbatim>\<open>t\<close>. A plain object
  converts through the \<^verbatim>\<open>toString\<close> it inherits; an own property of that name
  holds a JSON value, which is not callable, and the inherited \<^verbatim>\<open>valueOf\<close> returns
  the object itself, so the conversion throws. An array converts by \<^verbatim>\<open>join\<close>, in
  which \<^verbatim>\<open>null\<close> and \<^verbatim>\<open>undefined\<close> elements are empty.
\<close>

fun ToString :: "json \<Rightarrow> exn + string" where
  "ToString JUndefined = Inr ''undefined''"
| "ToString JNull = Inr ''null''"
| "ToString (JBool b) = Inr (if b then ''true'' else ''false'')"
| "ToString (JNum r) = Inr r"
| "ToString (JStr s) = Inr s"
| "ToString (JArr xs) =
     join (map (\<lambda>x. if x = JUndefined \<or> x = JNull then Inr [] else ToString x) xs)"
| "ToString (JObj ps) =
     (if ''toString'' \<in> fst ` set ps then Inl cannot_convert else Inr ''[object Object]'')"

section \<open>The counters of the statistics handler\<close>

text \<open>
  \<^verbatim>\<open>totalsByType\<close> and \<^verbatim>\<open>totalsByUser\<close> are object literals \<^verbatim>\<open>{}\<close>: their own
  properties, listed in the order of their creation, over the prototype
  \<^verbatim>\<open>Object.prototype\<close>. A slot holds a number or, once \<^verbatim>\<open>+\<close> has concatenated, a
  string. The numbers are counts of entries, on which the doubles of JavaScript are exact
  (up to \<open>2 ^ 53\<close>), so they are natural numbers here.
\<close>

datatype tally_value = Count nat | Text string

type_synonym tally = "(string \<times> tally_value) list"

text \<open>The function-valued properties every object literal inherits.\<close>

definition object_prototype_functions :: "string list" where
  "object_prototype_functions =
     [''constructor'', ''__defineGetter__'', ''__defineSetter__'', ''hasOwnProperty'',
      ''__lookupGetter__'', ''__lookupSetter__'', ''isPrototypeOf'',
      ''propertyIsEnumerable'', ''toString'', ''valueOf'', ''toLocaleString'']"

text \<open>The text of a built-in function, as \<^verbatim>\<open>+\<close> sees it.\<close>

definition function_text :: "string \<Rightarrow> string" where
  "function_text k =
     ''function '' @ (if k = ''constructor'' then ''Object'' else k) @ ''() { [native code] }''"

text \<open>
  What \<^verbatim>\<open>obj[k]\<close> reads: the accessor \<^verbatim>\<open>__proto__\<close> returns the prototype object, an
  own property returns its value, an inherited one the built-in function.
\<close>

datatype slot = Missing | Own tally_value | Inherited string | Prototype

definition get_property :: "tally \<Rightarrow> string \<Rightarrow> slot" where
  "get_property m k =
     (if k = ''__proto__'' then Prototype
      else (case map_of m k of
              Some v \<Rightarrow> Own v
            | None \<Rightarrow> if k \<in> set object_prototype_functions then Inherited k else Missing))"

text \<open>
  \<^verbatim>\<open>(x || 0) + 1\<close>: a truthy number is incremented, a falsy value counts from zero,
  and anything else is turned into a string to which \<^verbatim>\<open>"1"\<close> is appended.
\<close>

fun or_zero_plus_one :: "slot \<Rightarrow> tally_value" where
  "or_zero_plus_one Missing = Count (0 + 1)"
| "or_zero_plus_one (Own (Count n)) = Count ((if n \<noteq> 0 then n else 0) + 1)"
| "or_zero_plus_one (Own (Text s)) = (if s \<noteq> [] then Text (s @ ''1'') else Count (0 + 1))"
| "or_zero_plus_one (Inherited k) = Text (function_text k @ ''1'')"
| "or_zero_plus_one Prototype = Text (''[object Object]'' @ ''1'')"

text \<open>
  \<^verbatim>\<open>obj[k] = v\<close> for a number or a string \<^verbatim>\<open>v\<close>: the setter of \<^verbatim>\<open>__proto__\<close>
  ignores a value that is neither an object nor \<^verbatim>\<open>null\<close>; any other key becomes or
  stays an own property.
\<close>

definition set_property :: "tally \<Rightarrow> string \<Rightarrow> tally_value \<Rightarrow> tally" where
  "set_property m k v = (if k = ''__proto__'' then m else AList.update k v m)"

text \<open>\<^verbatim>\<open>m[t] = (m[t] || 0) + 1\<close>\<close>

definition count_up :: "tally \<Rightarrow> json \<Rightarrow> exn + tally" where
  "count_up m t =
     (case ToString t of
        Inl x \<Rightarrow> Inl x
      | Inr k \<Rightarrow> Inr (set_property m k (or_zero_plus_one (get_property m k))))"

record StatsSummary =
  totalEntries :: nat
  totalsByType :: tally
  totalsByUser :: tally

text \<open>The callback of \<^verbatim>\<open>entries.forEach\<close> (lines 142-148), on the three accumulators.\<close>

definition callback :: "StatsSummary \<Rightarrow> document \<Rightarrow> exn + StatsSummary" where
  "callback s e =
     (let n = totalEntries s + 1;
          t = or_else (field e ''type'') (JStr ''Unknown'')
      in case count_up (totalsByType s) t of
           Inl x \<Rightarrow> Inl x
         | Inr byType \<Rightarrow>
             (let uid = or_else (field e ''submitterId'') (JStr ''unknown'')
              in case count_up (totalsByUser s) uid of
                   Inl x \<Rightarrow> Inl x
                 | Inr byUser \<Rightarrow>
                     Inr \<lparr>totalEntries = n, totalsByType = byType, totalsByUser = byUser\<rparr>))"

fun forEach :: "document list \<Rightarrow> StatsSummary \<Rightarrow> exn + StatsSummary" where
  "forEach [] s = Inr s"
| "forEach (e # es) s = (case callback s e of Inl x \<Rightarrow> Inl x | Inr s' \<Rightarrow> forEach es s')"

text \<open>Lines 138-148: the accumulators start empty and the entries are folded in.\<close>

definition computeStats :: "document list \<Rightarrow> exn + StatsSummary" where
  "computeStats entries =
     forEach entries \<lparr>totalEntries = 0, totalsByType = [], totalsByUser = []\<rparr>"

section \<open>The document store and the request handlers\<close>

text \<open>
  The two collections the handlers reach, each a list of documents under their
  identifiers, and the number of calls made to the store client so far.
\<close>

type_synonym collection = "(string \<times> document) list"

record store =
  wasteEntries :: collection
  events :: collection
  requests :: nat

text \<open>The identifiers the store has given out: those of the documents it holds.\<close>

definition issued :: "store \<Rightarrow> string list" where
  "issued st = map fst (wasteEntries st) @ map fst (events st)"

text \<open>
  Whether \<^verbatim>\<open>undefined\<close> occurs in a value, at any depth. A parsed request body holds it
  nowhere; a document that a handler builds holds it where the handler has read a
  property that the body does not have.
\<close>

fun has_undefined :: "json \<Rightarrow> bool" where
  "has_undefined JUndefined = True"
| "has_undefined JNull = False"
| "has_undefined (JBool b) = False"
| "has_undefined (JNum r) = False"
| "has_undefined (JStr s) = False"
| "has_undefined (JArr xs) = (\<exists>x\<in>set xs. has_undefined x)"
| "has_undefined (JObj ps) = (\<exists>p\<in>set ps. has_undefined (snd p))"

definition undefined_value :: exn where
  "undefined_value = StorageError ''Cannot use undefined as a Firestore value''"

definition already_exists :: exn where
  "already_exists = StorageError ''Document already exists''"

text \<open>
  Modelled from the spec: the document store is a hosted service outside the repository;
  the source only calls its client (\<^verbatim>\<open>collection(...).add(doc)\<close>, \<^verbatim>\<open>collection(...).get()\<close>).
  By sections 2, 3, 4.1 and 7 of the spec, \<^verbatim>\<open>add\<close> appends one document under an
  identifier that the store assigns on creation, \<^verbatim>\<open>get\<close> returns all current documents,
  and either may fail. What the store does at a call is the call's first argument: the
  error it rejects with, or, for \<^verbatim>\<open>add\<close>, the identifier that it generates. Whatever
  the argument, two things do not happen. The store issues no identifier twice
  (section 8: a newly generated identifier is not equal to any previously issued one):
  a generated identifier that is in use makes the call fail. And the client stores no
  \<^verbatim>\<open>undefined\<close>: the source takes the client as \<^verbatim>\<open>getFirestore()\<close> gives it (line 34),
  without \<^verbatim>\<open>ignoreUndefinedProperties\<close>, and so the client rejects a document in which
  \<^verbatim>\<open>undefined\<close> occurs (the wording of its message is abridged here). \<open>used\<close> are the
  identifiers issued so far.
\<close>

definition add ::
  "exn + string \<Rightarrow> string list \<Rightarrow> document \<Rightarrow> collection \<Rightarrow> exn + string \<times> collection" where
  "add reply used doc col =
     (case reply of
        Inl err \<Rightarrow> Inl err
      | Inr i \<Rightarrow>
          if has_undefined (JObj doc) then Inl undefined_value
          else if i \<in> set used then Inl already_exists
          else Inr (i, col @ [(i, doc)]))"

definition get :: "exn option \<Rightarrow> collection \<Rightarrow> exn + collection" where
  "get reply col = (case reply of Some err \<Rightarrow> Inl err | None \<Rightarrow> Inr col)"

text \<open>\<^verbatim>\<open>res.status(n).json(b)\<close>: the status and the body that is sent.\<close>

datatype payload =
    ErrorBody string
  | Added string string
  | Listing "document list"
  | Summary StatsSummary

record response =
  status :: nat
  body :: payload

text \<open>
  \<^verbatim>\<open>POST /api/waste\<close> (lines 49-70). \<open>now\<close> is \<^verbatim>\<open>new Date().toISOString()\<close>,
  \<open>reply\<close> what the store does with the \<^verbatim>\<open>add\<close>, and \<open>b\<close> the own properties of
  \<^verbatim>\<open>req.body\<close>, the object that \<^verbatim>\<open>express.json()\<close> has parsed. The reads
  \<^verbatim>\<open>user.uid\<close> and \<^verbatim>\<open>user.email\<close> are reached only past the guard, where
  \<^verbatim>\<open>user\<close> is an object.
\<close>

definition post_api_waste :: "string \<Rightarrow> exn + string \<Rightarrow> document \<Rightarrow> store \<Rightarrow> response \<times> store" where
  "post_api_waste now reply b st =
     (let type = field b ''type'';
          volume = field b ''volume'';
          location = field b ''location'';
          user = field b ''user''
      in if \<not> truthy (opt_prop user ''uid'')
         then (\<lparr>status = 401, body = ErrorBody ''Unauthorized''\<rparr>, st)
         else
           (case add reply (issued st)
                   [(''type'', type),
                    (''volume'', volume),
                    (''location'', location),
                    (''submitterId'', read_prop user ''uid''),
                    (''submitterEmail'', or_else (read_prop user ''email'') JNull),
                    (''createdAt'', JStr now)]
                   (wasteEntries st) of
              Inl err \<Rightarrow>
                (\<lparr>status = 500, body = ErrorBody (message err)\<rparr>,
                 st\<lparr>requests := requests st + 1\<rparr>)
            | Inr (i, col) \<Rightarrow>
                (\<lparr>status = 200, body = Added ''Waste entry added'' i\<rparr>,
                 st\<lparr>wasteEntries := col, requests := requests st + 1\<rparr>)))"

text \<open>\<^verbatim>\<open>{ id: d.id, ...d.data() }\<close>: a field \<^verbatim>\<open>id\<close> of the document overrides \<^verbatim>\<open>d.id\<close>.\<close>

definition with_id :: "string \<times> document \<Rightarrow> document" where
  "with_id d = fold (\<lambda>(k, v). AList.update k v) (snd d) [(''id'', JStr (fst d))]"

text \<open>\<^verbatim>\<open>GET /api/waste\<close> (lines 73-85).\<close>

definition get_api_waste :: "exn option \<Rightarrow> store \<Rightarrow> response \<times> store" where
  "get_api_waste reply st =
     (case get reply (wasteEntries st) of
        Inl err \<Rightarrow>
          (\<lparr>status = 500, body = ErrorBody (message err)\<rparr>, st\<lparr>requests := requests st + 1\<rparr>)
      | Inr docs \<Rightarrow>
          (\<lparr>status = 200, body = Listing (map with_id docs)\<rparr>,
           st\<lparr>requests := requests st + 1\<rparr>))"

text \<open>\<^verbatim>\<open>POST /api/events\<close> (lines 89-111).\<close>

definition post_api_events :: "string \<Rightarrow> exn + string \<Rightarrow> document \<Rightarrow> store \<Rightarrow> response \<times> store" where
  "post_api_events now reply b st =
     (let title = field b ''title'';
          description = field b ''description'';
          location = field b ''location'';
          date = field b ''date'';
          user = field b ''user''
      in if \<not> truthy (opt_prop user ''uid'')
         then (\<lparr>status = 401, body = ErrorBody ''Unauthorized''\<rparr>, st)
         else
           (case add reply (issued st)
                   [(''title'', title),
                    (''description'', description),
                    (''location'', location),
                    (''date'', date),
                    (''creatorId'', read_prop user ''uid''),
                    (''creatorEmail'', or_else (read_prop user ''email'') JNull),
                    (''createdAt'', JStr now)]
                   (events st) of
              Inl err \<Rightarrow>
                (\<lparr>status = 500, body = ErrorBody (message err)\<rparr>,
                 st\<lparr>requests := requests st + 1\<rparr>)
            | Inr (i, col) \<Rightarrow>
                (\<lparr>status = 200, body = Added ''Event created'' i\<rparr>,
                 st\<lparr>events := col, requests := requests st + 1\<rparr>)))"

text \<open>\<^verbatim>\<open>GET /api/events\<close> (lines 114-126).\<close>

definition get_api_events :: "exn option \<Rightarrow> store \<Rightarrow> response \<times> store" where
  "get_api_events reply st =
     (case get reply (events st) of
        Inl err \<Rightarrow>
          (\<lparr>status = 500, body = ErrorBody (message err)\<rparr>, st\<lparr>requests := requests st + 1\<rparr>)
      | Inr docs \<Rightarrow>
          (\<lparr>status = 200, body = Listing (map with_id docs)\<rparr>,
           st\<lparr>requests := requests st + 1\<rparr>))"

text \<open>
  \<^verbatim>\<open>GET /api/stats\<close> (lines 130-155): the documents are read without their identifiers
  (\<^verbatim>\<open>d.data()\<close>) and folded; whatever is thrown on the way is answered with 500.
\<close>

definition get_api_stats :: "exn option \<Rightarrow> store \<Rightarrow> response \<times> store" where
  "get_api_stats reply st =
     (case get reply (wasteEntries st) of
        Inl err \<Rightarrow>
          (\<lparr>status = 500, body = ErrorBody (message err)\<rparr>, st\<lparr>requests := requests st + 1\<rparr>)
      | Inr docs \<Rightarrow>
          (case computeStats (map snd docs) of
             Inl err \<Rightarrow>
               (\<lparr>status = 500, body = ErrorBody (message err)\<rparr>,
                st\<lparr>requests := requests st + 1\<rparr>)
           | Inr s \<Rightarrow>
               (\<lparr>status = 200, body = Summary s\<rparr>, st\<lparr>requests := requests st + 1\<rparr>)))"

text \<open>A store with nothing in it, and a run of \<^verbatim>\<open>POST /api/waste\<close> requests against a store.\<close>

definition empty_store :: store where
  "empty_store = \<lparr>wasteEntries = [], events = [], requests = 0\<rparr>"

fun creations :: "(string \<times> (exn + string) \<times> document) list \<Rightarrow> store \<Rightarrow> store" where
  "creations [] st = st"
| "creations ((now, reply, b) # cs) st = creations cs (snd (post_api_waste now reply b st))"

section \<open>Notions the properties are stated with\<close>

text \<open>
  The keys under which the callback counts an entry: \<^verbatim>\<open>e.type || "Unknown"\<close> and
  \<^verbatim>\<open>e.submitterId || "unknown"\<close>, converted to property keys.
\<close>

definition type_key :: "document \<Rightarrow> exn + string" where
  "type_key e = ToString (or_else (field e ''type'') (JStr ''Unknown''))"

definition user_key :: "document \<Rightarrow> exn + string" where
  "user_key e = ToString (or_else (field e ''submitterId'') (JStr ''unknown''))"

text \<open>How many of the entries are counted under the key \<open>k\<close>.\<close>

definition hits :: "(document \<Rightarrow> exn + string) \<Rightarrow> string \<Rightarrow> document list \<Rightarrow> nat" where
  "hits key k es = length (filter (\<lambda>e. key e = Inr k) es)"

text \<open>The names an object literal answers to without having them as own properties.\<close>

definition inherited :: "string \<Rightarrow> bool" where
  "inherited k = (k = ''__proto__'' \<or> k \<in> set object_prototype_functions)"

text \<open>
  The own property that a counter object has under \<open>k\<close> after \<open>n\<close> entries were counted
  there: none under \<^verbatim>\<open>__proto__\<close>, the text of the inherited function followed by
  \<open>n\<close> digits \<^verbatim>\<open>1\<close> under an inherited name, and the number \<open>n\<close> under any other key.
\<close>

definition slot_after :: "string \<Rightarrow> nat \<Rightarrow> tally_value option" where
  "slot_after k n =
     (if n = 0 \<or> k = ''__proto__'' then None
      else if k \<in> set object_prototype_functions
           then Some (Text (function_text k @ replicate n (CHR ''1'')))
           else Some (Count n))"

text \<open>
  \<^verbatim>\<open>sum(totals.values())\<close> of the spec: the sum of the values of a counter object, which
  exists when all of them are numbers.
\<close>

fun sum_values :: "tally \<Rightarrow> nat option" where
  "sum_values [] = Some 0"
| "sum_values ((k, Count n) # m) = (case sum_values m of None \<Rightarrow> None | Some t \<Rightarrow> Some (n + t))"
| "sum_values ((k, Text s) # m) = None"

subsection \<open>The fold as the specification words it\<close>

text \<open>
  Section 4.2 of the spec: \<^emph>\<open>for each entry, increment \<^verbatim>\<open>totalEntries\<close>; let \<^verbatim>\<open>t\<close> be
  \<^verbatim>\<open>entry.type\<close> if present, else the literal string \<^verbatim>\<open>"Unknown"\<close>; increment
  \<^verbatim>\<open>totalsByType[t]\<close>; let \<^verbatim>\<open>u\<close> be \<^verbatim>\<open>entry.submitterId\<close> if present, else the literal
  string \<^verbatim>\<open>"unknown"\<close>; increment \<^verbatim>\<open>totalsByUser[u]\<close>\<close>. The fields are texts
  (section 3), and the counters are mappings from a text to a number.
\<close>

fun text_of :: "json \<Rightarrow> string" where
  "text_of (JStr s) = s"
| "text_of v = []"

definition increment :: "(string \<times> nat) list \<Rightarrow> string \<Rightarrow> (string \<times> nat) list" where
  "increment m k = AList.update k (case map_of m k of None \<Rightarrow> 1 | Some n \<Rightarrow> n + 1) m"

fun fold_entries ::
  "(json \<Rightarrow> string \<Rightarrow> string) \<Rightarrow> document list \<Rightarrow>
   nat \<times> (string \<times> nat) list \<times> (string \<times> nat) list \<Rightarrow>
   nat \<times> (string \<times> nat) list \<times> (string \<times> nat) list" where
  "fold_entries key [] acc = acc"
| "fold_entries key (e # es) (n, byType, byUser) =
     fold_entries key es
       (n + 1,
        increment byType (key (field e ''type'') ''Unknown''),
        increment byUser (key (field e ''submitterId'') ''unknown''))"

text \<open>The key of the spec's words: the field if it is present.\<close>

definition key_if_present :: "json \<Rightarrow> string \<Rightarrow> string" where
  "key_if_present v d = (if v \<noteq> JUndefined then text_of v else d)"

definition spec_computeStats :: "document list \<Rightarrow> nat \<times> (string \<times> nat) list \<times> (string \<times> nat) list" where
  "spec_computeStats entries = fold_entries key_if_present entries (0, [], [])"

text \<open>
  The fold as the source has it, on counters that are numbers: \<^verbatim>\<open>t\<close> is \<^verbatim>\<open>entry.type\<close>
  if that is truthy, else \<^verbatim>\<open>"Unknown"\<close>, and \<^verbatim>\<open>u\<close> is \<^verbatim>\<open>entry.submitterId\<close> if that
  is truthy, else \<^verbatim>\<open>"unknown"\<close>; each is counted under its property key, and a value
  that has no property key ends the fold with the error of the conversion.
\<close>

fun counting_fold ::
  "document list \<Rightarrow> nat \<times> (string \<times> nat) list \<times> (string \<times> nat) list \<Rightarrow>
   exn + nat \<times> (string \<times> nat) list \<times> (string \<times> nat) list" where
  "counting_fold [] acc = Inr acc"
| "counting_fold (e # es) (n, byType, byUser) =
     (case type_key e of
        Inl x \<Rightarrow> Inl x
      | Inr t \<Rightarrow>
          (case user_key e of
             Inl x \<Rightarrow> Inl x
           | Inr u \<Rightarrow> counting_fold es (n + 1, increment byType t, increment byUser u)))"

text \<open>A key that is not a name which an object literal inherits; a failed conversion has none.\<close>

fun plain :: "exn + string \<Rightarrow> bool" where
  "plain (Inl x) = True"
| "plain (Inr k) = (\<not> inherited k)"

text \<open>The summary that holds the given numbers.\<close>

definition summary_of :: "nat \<times> (string \<times> nat) list \<times> (string \<times> nat) list \<Rightarrow> StatsSummary" where
  "summary_of acc =
     (case acc of (n, byType, byUser) \<Rightarrow>
        \<lparr>totalEntries = n,
         totalsByType = map (\<lambda>(k, c). (k, Count c)) byType,
         totalsByUser = map (\<lambda>(k, c). (k, Count c)) byUser\<rparr>)"

definition counting_computeStats :: "document list \<Rightarrow> exn + StatsSummary" where
  "counting_computeStats entries =
     (case counting_fold entries (0, [], []) of
        Inl x \<Rightarrow> Inl x
      | Inr acc \<Rightarrow> Inr (summary_of acc))"

subsection \<open>Runs of requests\<close>

text \<open>
  The document that \<^verbatim>\<open>POST /api/waste\<close> hands to the store (lines 56-63), and the
  requests of a run that are answered with 200, in their order.
\<close>

definition waste_document :: "string \<Rightarrow> document \<Rightarrow> document" where
  "waste_document now b =
     [(''type'', field b ''type''),
      (''volume'', field b ''volume''),
      (''location'', field b ''location''),
      (''submitterId'', read_prop (field b ''user'') ''uid''),
      (''submitterEmail'', or_else (read_prop (field b ''user'') ''email'') JNull),
      (''createdAt'', JStr now)]"

fun succeeded ::
  "(string \<times> (exn + string) \<times> document) list \<Rightarrow> store \<Rightarrow>
   (string \<times> (exn + string) \<times> document) list" where
  "succeeded [] st = []"
| "succeeded ((now, reply, b) # cs) st =
     (if status (fst (post_api_waste now reply b st)) = 200 then [(now, reply, b)] else [])
     @ succeeded cs (snd (post_api_waste now reply b st))"

section \<open>The empty collection\<close>

text \<open>
  C8: \<^verbatim>\<open>computeStats\<close> on an empty waste-entry collection returns exactly
  \<^verbatim>\<open>{totalEntries: 0, totalsByType: {}, totalsByUser: {}}\<close>: the fold of no entry leaves
  the three accumulators as they start, and the handler answers 200 with them whenever
  the store returns no document.
\<close>

theorem stats_of_empty_collection:
  "computeStats [] = Inr \<lparr>totalEntries = 0, totalsByType = [], totalsByUser = []\<rparr>
   \<and> fst (get_api_stats None (st\<lparr>wasteEntries := []\<rparr>)) =
       \<lparr>status = 200,
        body = Summary \<lparr>totalEntries = 0, totalsByType = [], totalsByUser = []\<rparr>\<rparr>"
  by (simp add: computeStats_def get_api_stats_def get_def)

section \<open>Facts about the fold\<close>

text \<open>A conversion to a property key throws one error only.\<close>

lemma join_error:
  "\<lbrakk>\<forall>r\<in>set rs. \<forall>x. r = Inl x \<longrightarrow> x = c; join rs = Inl x\<rbrakk> \<Longrightarrow> x = c"
  by (induction rs rule: join.induct) (auto split: sum.splits)

lemma ToString_error: "ToString v = Inl x \<Longrightarrow> x = cannot_convert"
proof (induction v arbitrary: x rule: ToString.induct)
  case (6 xs)
  show ?case
  proof (rule join_error [OF _ "6.prems" [simplified]])
    show "\<forall>r\<in>set (map (\<lambda>x. if x = JUndefined \<or> x = JNull then Inr [] else ToString x) xs).
            \<forall>x. r = Inl x \<longrightarrow> x = cannot_convert"
      using "6.IH" by (auto split: if_splits)
  qed
qed (auto split: if_splits)

lemma map_of_set_property:
  "map_of (set_property m k v) k'
     = (if k' = k \<and> k \<noteq> ''__proto__'' then Some v else map_of m k')"
  by (simp add: set_property_def update_conv')

lemma forEach_snoc:
  "forEach (es @ [e]) s = (case forEach es s of Inl x \<Rightarrow> Inl x | Inr s' \<Rightarrow> callback s' e)"
  by (induction es arbitrary: s) (auto split: sum.splits)

lemma callback_Inr:
  "callback s e = Inr s' \<longleftrightarrow>
     (\<exists>kt ku. type_key e = Inr kt \<and> user_key e = Inr ku \<and>
        s' = \<lparr>totalEntries = totalEntries s + 1,
              totalsByType = set_property (totalsByType s) kt (or_zero_plus_one (get_property (totalsByType s) kt)),
              totalsByUser = set_property (totalsByUser s) ku (or_zero_plus_one (get_property (totalsByUser s) ku))\<rparr>)"
  by (auto simp: callback_def count_up_def type_key_def user_key_def Let_def split: sum.splits)

lemma callback_Inl:
  "callback s e = Inl x \<longleftrightarrow>
     x = cannot_convert \<and> ((\<exists>y. type_key e = Inl y) \<or> (\<exists>y. user_key e = Inl y))"
  by (auto simp: callback_def count_up_def type_key_def user_key_def Let_def 
      split: sum.splits dest: ToString_error)

lemma slot_after_Suc:
  assumes "map_of m k = slot_after k n"
  shows "map_of (set_property m k (or_zero_plus_one (get_property m k))) k = slot_after k (Suc n)"
proof (cases "k = ''__proto__''")
  case True
  with assms show ?thesis by (simp add: set_property_def slot_after_def)
next
  case False
  show ?thesis
  proof (cases "n = 0")
    case True
    with assms False show ?thesis
      by (simp add: map_of_set_property get_property_def slot_after_def)
  next
    case pos: False
    with assms False show ?thesis
      by (simp add: map_of_set_property get_property_def slot_after_def replicate_append_same)
  qed
qed

lemma slot_after_other:
  "k' \<noteq> k \<Longrightarrow>
   map_of (set_property m k (or_zero_plus_one (get_property m k))) k' = map_of m k'"
  by (simp add: map_of_set_property)

lemma hits_snoc:
  "hits key k (es @ [e]) = (if key e = Inr k then Suc (hits key k es) else hits key k es)"
  by (simp add: hits_def)

lemma computeStats_snoc:
  "computeStats (es @ [e]) =
     (case computeStats es of Inl x \<Rightarrow> Inl x | Inr s' \<Rightarrow> callback s' e)"
  by (simp add: computeStats_def forEach_snoc)

lemma computeStats_slots:
  "computeStats es = Inr s \<Longrightarrow>
     totalEntries s = length es
     \<and> map_of (totalsByType s) k = slot_after k (hits type_key k es)
     \<and> map_of (totalsByUser s) k = slot_after k (hits user_key k es)"
proof (induction es arbitrary: s rule: rev_induct)
  case Nil
  then show ?case by (auto simp: computeStats_def hits_def slot_after_def)
next
  case (snoc e es)
  from snoc.prems obtain s0 where s0: "computeStats es = Inr s0" and cb: "callback s0 e = Inr s"
    by (auto simp: computeStats_snoc split: sum.splits)
  from cb obtain kt ku where kt: "type_key e = Inr kt" and ku: "user_key e = Inr ku"
    and s: "s = \<lparr>totalEntries = totalEntries s0 + 1,
              totalsByType = set_property (totalsByType s0) kt (or_zero_plus_one (get_property (totalsByType s0) kt)),
              totalsByUser = set_property (totalsByUser s0) ku (or_zero_plus_one (get_property (totalsByUser s0) ku))\<rparr>"
    unfolding callback_Inr by blast
  note IH = snoc.IH [OF s0]
  have n: "totalEntries s = length (es @ [e])" using IH s by simp
  have t: "map_of (totalsByType s) k = slot_after k (hits type_key k (es @ [e]))"
  proof (cases "kt = k")
    case True
    with IH have "map_of (totalsByType s0) kt = slot_after kt (hits type_key kt es)" by simp
    from slot_after_Suc [OF this] True kt s show ?thesis by (simp add: hits_snoc)
  next
    case False
    with IH kt s show ?thesis by (simp add: hits_snoc slot_after_other)
  qed
  have u: "map_of (totalsByUser s) k = slot_after k (hits user_key k (es @ [e]))"
  proof (cases "ku = k")
    case True
    with IH have "map_of (totalsByUser s0) ku = slot_after ku (hits user_key ku es)" by simp
    from slot_after_Suc [OF this] True ku s show ?thesis by (simp add: hits_snoc)
  next
    case False
    with IH ku s show ?thesis by (simp add: hits_snoc slot_after_other)
  qed
  from n t u show ?case by blast
qed

lemma computeStats_returns:
  "(\<exists>s. computeStats es = Inr s) \<longleftrightarrow>
     (\<forall>e\<in>set es. (\<exists>k. type_key e = Inr k) \<and> (\<exists>k. user_key e = Inr k))"
proof (induction es rule: rev_induct)
  case Nil
  then show ?case by (simp add: computeStats_def)
next
  case (snoc e es)
  show ?case
  proof (cases "computeStats es")
    case (Inl x)
    with snoc show ?thesis by (auto simp: computeStats_snoc)
  next
    case (Inr s0)
    with snoc have all: "\<forall>e\<in>set es. (\<exists>k. type_key e = Inr k) \<and> (\<exists>k. user_key e = Inr k)"
      by blast
    have "(\<exists>s. callback s0 e = Inr s) \<longleftrightarrow> (\<exists>k. type_key e = Inr k) \<and> (\<exists>k. user_key e = Inr k)"
      unfolding callback_Inr by blast
    with Inr all show ?thesis by (simp add: computeStats_snoc)
  qed
qed

lemma computeStats_throws: "computeStats es = Inl x \<Longrightarrow> x = cannot_convert"
proof (induction es arbitrary: x rule: rev_induct)
  case Nil
  then show ?case by (simp add: computeStats_def)
next
  case (snoc e es)
  then show ?case
    by (auto simp: computeStats_snoc callback_Inl split: sum.splits)
qed

lemma hits_mset: "mset es = mset es' \<Longrightarrow> hits key k es = hits key k es'"
proof -
  assume eq: "mset es = mset es'"
  have "hits key k es = size (filter_mset (\<lambda>e. key e = Inr k) (mset es))" for es :: "document list"
    by (simp add: hits_def flip: mset_filter)
  with eq show ?thesis by simp
qed

lemma guard_gives_object: "truthy (opt_prop u k) \<Longrightarrow> \<exists>ps. u = JObj ps \<and> opt_prop u k = read_prop u k"
  by (cases u) (simp_all add: opt_prop_def)

section \<open>The write handlers\<close>

text \<open>
  Past the guard the answer is that of the store: 200 for a document that it takes, 500
  for one that it rejects.
\<close>

lemma post_api_waste_past_guard:
  assumes "truthy (opt_prop (field b ''user'') ''uid'')"
  shows "post_api_waste now reply b st =
           (case add reply (issued st) (waste_document now b) (wasteEntries st) of
              Inl err \<Rightarrow>
                (\<lparr>status = 500, body = ErrorBody (message err)\<rparr>,
                 st\<lparr>requests := requests st + 1\<rparr>)
            | Inr (i, col) \<Rightarrow>
                (\<lparr>status = 200, body = Added ''Waste entry added'' i\<rparr>,
                 st\<lparr>wasteEntries := col, requests := requests st + 1\<rparr>))"
  using assms by (simp add: post_api_waste_def waste_document_def Let_def)

lemma post_api_waste_accepted:
  assumes "truthy (opt_prop (field b ''user'') ''uid'')"
    and "\<not> has_undefined (JObj (waste_document now b))"
    and "i \<notin> set (issued st)"
  shows "post_api_waste now (Inr i) b st =
           (\<lparr>status = 200, body = Added ''Waste entry added'' i\<rparr>,
            st\<lparr>wasteEntries := wasteEntries st @ [(i, waste_document now b)],
               requests := requests st + 1\<rparr>)"
  using assms(2,3) by (simp add: post_api_waste_past_guard [OF assms(1)] add_def)

lemma post_api_waste_rejected:
  assumes "truthy (opt_prop (field b ''user'') ''uid'')"
    and "has_undefined (JObj (waste_document now b))"
  shows "post_api_waste now (Inr i) b st =
           (\<lparr>status = 500, body = ErrorBody (message undefined_value)\<rparr>,
            st\<lparr>requests := requests st + 1\<rparr>)"
  using assms(2) by (simp add: post_api_waste_past_guard [OF assms(1)] add_def)

lemma post_api_waste_200:
  assumes "post_api_waste now reply b st = (res, st')" and "status res = 200"
  shows "\<exists>i. reply = Inr i \<and> i \<notin> set (issued st)
           \<and> truthy (opt_prop (field b ''user'') ''uid'')
           \<and> \<not> has_undefined (JObj (waste_document now b))
           \<and> res = \<lparr>status = 200, body = Added ''Waste entry added'' i\<rparr>
           \<and> st' = st\<lparr>wasteEntries := wasteEntries st @ [(i, waste_document now b)],
                       requests := requests st + 1\<rparr>"
proof -
  from assms have ok: "truthy (opt_prop (field b ''user'') ''uid'')"
    by (auto simp: post_api_waste_def Let_def split: if_splits)
  from assms show ?thesis
    unfolding post_api_waste_past_guard [OF ok]
    by (auto simp: add_def ok split: sum.splits if_splits)
qed

lemma post_api_waste_not_200:
  assumes "status (fst (post_api_waste now reply b st)) \<noteq> 200"
  shows "wasteEntries (snd (post_api_waste now reply b st)) = wasteEntries st"
    and "events (snd (post_api_waste now reply b st)) = events st"
  using assms
  by (auto simp: post_api_waste_def Let_def add_def split: if_splits sum.splits)

lemma field_waste_document:
  "field (waste_document now b) ''type'' = field b ''type''"
  "field (waste_document now b) ''volume'' = field b ''volume''"
  "field (waste_document now b) ''location'' = field b ''location''"
  "field (waste_document now b) ''submitterId'' = read_prop (field b ''user'') ''uid''"
  "field (waste_document now b) ''submitterEmail'' =
     or_else (read_prop (field b ''user'') ''email'') JNull"
  by (simp_all add: waste_document_def field_def)

lemma with_id_waste_document:
  "with_id (i, waste_document now b) = (''id'', JStr i) # waste_document now b"
  by (simp add: with_id_def waste_document_def)

text \<open>
  C3: for every request body in which \<^verbatim>\<open>user.uid\<close> is absent (\<^verbatim>\<open>user?.uid\<close> is
  \<^verbatim>\<open>undefined\<close>), both \<^verbatim>\<open>POST /api/waste\<close> and \<^verbatim>\<open>POST /api/events\<close> answer 401
  with the error \<^verbatim>\<open>Unauthorized\<close> and return the store as it was, without a call to the
  store client; the listings after the call are those before it.
\<close>

theorem unauthorized_without_uid:
  assumes "opt_prop (field b ''user'') ''uid'' = JUndefined"
  shows "post_api_waste now reply b st = (\<lparr>status = 401, body = ErrorBody ''Unauthorized''\<rparr>, st)
       \<and> post_api_events now reply b st = (\<lparr>status = 401, body = ErrorBody ''Unauthorized''\<rparr>, st)
       \<and> get_api_waste r (snd (post_api_waste now reply b st)) = get_api_waste r st
       \<and> get_api_events r (snd (post_api_events now reply b st)) = get_api_events r st"
  using assms by (simp add: post_api_waste_def post_api_events_def)

theorem unauthorized_without_uid_witness:
  "opt_prop (field [(''type'', JStr ''Plastic''), (''user'', JObj [(''email'', JStr ''a@b.c'')])] ''user'') ''uid'' = JUndefined
   \<and> post_api_waste ''2024-05-01T10:00:00.000Z'' (Inr ''w1'')
        [(''type'', JStr ''Plastic''), (''user'', JObj [(''email'', JStr ''a@b.c'')])] empty_store
       = (\<lparr>status = 401, body = ErrorBody ''Unauthorized''\<rparr>, empty_store)
   \<and> post_api_events ''2024-05-01T10:00:00.000Z'' (Inr ''w1'')
        [(''type'', JStr ''Plastic''), (''user'', JObj [(''email'', JStr ''a@b.c'')])] empty_store
       = (\<lparr>status = 401, body = ErrorBody ''Unauthorized''\<rparr>, empty_store)"
proof -
  have h: "opt_prop (field [(''type'', JStr ''Plastic''), (''user'', JObj [(''email'', JStr ''a@b.c'')])] ''user'') ''uid'' = JUndefined"
    by (simp add: opt_prop_def field_def)
  show ?thesis
    using h unauthorized_without_uid [OF h, of "''2024-05-01T10:00:00.000Z''" "Inr ''w1''" empty_store None]
    by simp
qed

text \<open>
  C4: a successful \<^verbatim>\<open>POST /api/waste\<close> appends exactly one document to the waste-entry
  collection and leaves the events collection alone; it returns the identifier that the
  store generated for the document, which is none of the identifiers issued before (so
  that identifiers that were pairwise distinct stay so); and the listing afterwards is
  the listing before followed by one entry, which carries that identifier and the
  submitted \<^verbatim>\<open>type\<close>, \<^verbatim>\<open>volume\<close> and \<^verbatim>\<open>location\<close>.
\<close>

theorem successful_creation_appends_one:
  assumes "post_api_waste now reply b st = (res, st')"
    and "status res = 200"
  shows "\<exists>i d. reply = Inr i \<and> body res = Added ''Waste entry added'' i
           \<and> i \<notin> set (issued st)
           \<and> wasteEntries st' = wasteEntries st @ [(i, d)]
           \<and> events st' = events st
           \<and> set (issued st') = insert i (set (issued st))
           \<and> (distinct (issued st) \<longrightarrow> distinct (issued st'))
           \<and> field d ''type'' = field b ''type''
           \<and> field d ''volume'' = field b ''volume''
           \<and> field d ''location'' = field b ''location''
           \<and> body (fst (get_api_waste None st)) = Listing (map with_id (wasteEntries st))
           \<and> body (fst (get_api_waste None st')) =
               Listing (map with_id (wasteEntries st) @ [(''id'', JStr i) # d])"
proof -
  from post_api_waste_200 [OF assms] obtain i where i: "reply = Inr i"
    and fresh: "i \<notin> set (issued st)"
    and res: "res = \<lparr>status = 200, body = Added ''Waste entry added'' i\<rparr>"
    and st': "st' = st\<lparr>wasteEntries := wasteEntries st @ [(i, waste_document now b)],
                       requests := requests st + 1\<rparr>"
    by blast
  let ?d = "waste_document now b"
  have iss: "set (issued st') = insert i (set (issued st))"
    by (auto simp: st' issued_def)
  have dist: "distinct (issued st) \<longrightarrow> distinct (issued st')"
    using fresh by (auto simp: st' issued_def)
  have l0: "body (fst (get_api_waste None st)) = Listing (map with_id (wasteEntries st))"
    by (simp add: get_api_waste_def get_def)
  have l1: "body (fst (get_api_waste None st')) =
               Listing (map with_id (wasteEntries st) @ [(''id'', JStr i) # ?d])"
    by (simp add: get_api_waste_def get_def st' with_id_waste_document)
  have "reply = Inr i \<and> body res = Added ''Waste entry added'' i
           \<and> i \<notin> set (issued st)
           \<and> wasteEntries st' = wasteEntries st @ [(i, ?d)]
           \<and> events st' = events st
           \<and> set (issued st') = insert i (set (issued st))
           \<and> (distinct (issued st) \<longrightarrow> distinct (issued st'))
           \<and> field ?d ''type'' = field b ''type''
           \<and> field ?d ''volume'' = field b ''volume''
           \<and> field ?d ''location'' = field b ''location''
           \<and> body (fst (get_api_waste None st)) = Listing (map with_id (wasteEntries st))
           \<and> body (fst (get_api_waste None st')) =
               Listing (map with_id (wasteEntries st) @ [(''id'', JStr i) # ?d])"
    using i res fresh iss dist l0 l1 by (simp add: st' field_waste_document)
  then show ?thesis by blast
qed

theorem successful_creation_appends_one_witness:
  "post_api_waste ''2024-05-01T10:00:00.000Z'' (Inr ''w2'')
      [(''type'', JStr ''Plastic''), (''volume'', JStr ''5 bags''), (''location'', JStr ''Zapote''),
       (''user'', JObj [(''uid'', JStr ''u1'')])]
      \<lparr>wasteEntries = [(''w1'', [(''type'', JStr ''Glass'')])], events = [], requests = 0\<rparr>
    = (\<lparr>status = 200, body = Added ''Waste entry added'' ''w2''\<rparr>,
       \<lparr>wasteEntries =
          [(''w1'', [(''type'', JStr ''Glass'')]),
           (''w2'', [(''type'', JStr ''Plastic''), (''volume'', JStr ''5 bags''),
                    (''location'', JStr ''Zapote''), (''submitterId'', JStr ''u1''),
                    (''submitterEmail'', JNull),
                    (''createdAt'', JStr ''2024-05-01T10:00:00.000Z'')])],
        events = [], requests = 1\<rparr>)
   \<and> ''w2'' \<notin> set (issued \<lparr>wasteEntries = [(''w1'', [(''type'', JStr ''Glass'')])], events = [], requests = 0\<rparr>)
   \<and> body (fst (get_api_waste None
         \<lparr>wasteEntries =
          [(''w1'', [(''type'', JStr ''Glass'')]),
           (''w2'', [(''type'', JStr ''Plastic''), (''volume'', JStr ''5 bags''),
                    (''location'', JStr ''Zapote''), (''submitterId'', JStr ''u1''),
                    (''submitterEmail'', JNull),
                    (''createdAt'', JStr ''2024-05-01T10:00:00.000Z'')])],
          events = [], requests = 1\<rparr>))
     = Listing [[(''id'', JStr ''w1''), (''type'', JStr ''Glass'')],
                [(''id'', JStr ''w2''), (''type'', JStr ''Plastic''), (''volume'', JStr ''5 bags''),
                 (''location'', JStr ''Zapote''), (''submitterId'', JStr ''u1''),
                 (''submitterEmail'', JNull),
                 (''createdAt'', JStr ''2024-05-01T10:00:00.000Z'')]]"
proof -
  let ?b = "[(''type'', JStr ''Plastic''), (''volume'', JStr ''5 bags''), (''location'', JStr ''Zapote''),
       (''user'', JObj [(''uid'', JStr ''u1'')])]"
  let ?st = "\<lparr>wasteEntries = [(''w1'', [(''type'', JStr ''Glass'')])], events = [], requests = 0\<rparr>"
  let ?res = "\<lparr>status = 200, body = Added ''Waste entry added'' ''w2''\<rparr>"
  let ?st' = "\<lparr>wasteEntries =
          [(''w1'', [(''type'', JStr ''Glass'')]),
           (''w2'', [(''type'', JStr ''Plastic''), (''volume'', JStr ''5 bags''),
                    (''location'', JStr ''Zapote''), (''submitterId'', JStr ''u1''),
                    (''submitterEmail'', JNull),
                    (''createdAt'', JStr ''2024-05-01T10:00:00.000Z'')])],
        events = [], requests = 1\<rparr>"
  have run: "post_api_waste ''2024-05-01T10:00:00.000Z'' (Inr ''w2'') ?b ?st = (?res, ?st')"
    by (simp add: post_api_waste_def add_def opt_prop_def field_def or_else_def issued_def)
  have ok: "status ?res = 200" by simp
  from successful_creation_appends_one [OF run ok] run
  show ?thesis by (auto simp: with_id_def)
qed

text \<open>
  C6: when the store rejects the read of \<^verbatim>\<open>GET /api/stats\<close> with a storage error, the
  handler answers 500 with the body \<^verbatim>\<open>{error: message}\<close> after that one call to the
  store client (no retry); the list handlers do the same, and so do the write handlers
  when the store rejects their \<^verbatim>\<open>add\<close> (which they reach when \<^verbatim>\<open>user.uid\<close> is truthy).
\<close>

theorem store_failure_gives_500:
  assumes "truthy (opt_prop (field b ''user'') ''uid'')"
  shows "get_api_stats (Some (StorageError m)) st =
           (\<lparr>status = 500, body = ErrorBody m\<rparr>, st\<lparr>requests := requests st + 1\<rparr>)
       \<and> get_api_waste (Some (StorageError m)) st =
           (\<lparr>status = 500, body = ErrorBody m\<rparr>, st\<lparr>requests := requests st + 1\<rparr>)
       \<and> get_api_events (Some (StorageError m)) st =
           (\<lparr>status = 500, body = ErrorBody m\<rparr>, st\<lparr>requests := requests st + 1\<rparr>)
       \<and> post_api_waste now (Inl (StorageError m)) b st =
           (\<lparr>status = 500, body = ErrorBody m\<rparr>, st\<lparr>requests := requests st + 1\<rparr>)
       \<and> post_api_events now (Inl (StorageError m)) b st =
           (\<lparr>status = 500, body = ErrorBody m\<rparr>, st\<lparr>requests := requests st + 1\<rparr>)"
  using assms
  by (simp add: get_api_stats_def get_api_waste_def get_api_events_def post_api_waste_def
      post_api_events_def get_def add_def)

theorem store_failure_gives_500_witness:
  "truthy (opt_prop (field [(''user'', JObj [(''uid'', JStr ''u1'')])] ''user'') ''uid'')
   \<and> get_api_stats (Some (StorageError ''unavailable'')) empty_store =
       (\<lparr>status = 500, body = ErrorBody ''unavailable''\<rparr>, \<lparr>wasteEntries = [], events = [], requests = 1\<rparr>)
   \<and> post_api_waste ''2024-05-01T10:00:00.000Z'' (Inl (StorageError ''unavailable''))
        [(''user'', JObj [(''uid'', JStr ''u1'')])] empty_store =
       (\<lparr>status = 500, body = ErrorBody ''unavailable''\<rparr>, \<lparr>wasteEntries = [], events = [], requests = 1\<rparr>)"
proof -
  have h: "truthy (opt_prop (field [(''user'', JObj [(''uid'', JStr ''u1'')])] ''user'') ''uid'')"
    by (simp add: opt_prop_def field_def)
  show ?thesis
    using h store_failure_gives_500 [OF h, of "''unavailable''" empty_store "''2024-05-01T10:00:00.000Z''"]
    by (simp add: empty_store_def)
qed

text \<open>What is defined in a parsed body, and what the handler makes of it.\<close>

lemma has_undefined_field:
  assumes "\<not> has_undefined (JObj b)"
  shows "has_undefined (field b k) \<longleftrightarrow> field b k = JUndefined"
proof (cases "map_of b k")
  case None
  then show ?thesis by (simp add: field_def)
next
  case (Some v)
  then have "(k, v) \<in> set b" by (rule map_of_SomeD)
  with assms have "\<not> has_undefined v" by auto
  moreover from this have "v \<noteq> JUndefined" by auto
  ultimately show ?thesis using Some by (simp add: field_def)
qed

lemma has_undefined_user:
  assumes "\<not> has_undefined (JObj b)" and "truthy (opt_prop (field b ''user'') ''uid'')"
  shows "\<not> has_undefined (read_prop (field b ''user'') ''uid'')"
    and "\<not> has_undefined (or_else (read_prop (field b ''user'') ''email'') JNull)"
proof -
  from guard_gives_object [OF assms(2)] obtain ps where ps: "field b ''user'' = JObj ps"
    and same: "opt_prop (field b ''user'') ''uid'' = read_prop (field b ''user'') ''uid''"
    by blast
  from ps has_undefined_field [OF assms(1), of "''user''"] have u: "\<not> has_undefined (JObj ps)"
    by simp
  from assms(2) same ps have "field ps ''uid'' \<noteq> JUndefined" by auto
  with has_undefined_field [OF u, of "''uid''"] ps
  show "\<not> has_undefined (read_prop (field b ''user'') ''uid'')" by simp
  from has_undefined_field [OF u, of "''email''"] ps
  show "\<not> has_undefined (or_else (read_prop (field b ''user'') ''email'') JNull)"
    by (auto simp: or_else_def)
qed

lemma has_undefined_waste_document:
  assumes "\<not> has_undefined (JObj b)" and "truthy (opt_prop (field b ''user'') ''uid'')"
  shows "has_undefined (JObj (waste_document now b)) \<longleftrightarrow>
           field b ''type'' = JUndefined \<or> field b ''volume'' = JUndefined
           \<or> field b ''location'' = JUndefined"
  using has_undefined_user [OF assms] has_undefined_field [OF assms(1)]
  by (simp add: waste_document_def)

text \<open>
  C7, as the code has it: \<^verbatim>\<open>POST /api/waste\<close> checks nothing but \<^verbatim>\<open>user.uid\<close>. For a
  parsed body with a truthy \<^verbatim>\<open>user.uid\<close> and a store that generates an unused
  identifier: whatever the body holds under \<^verbatim>\<open>type\<close>, \<^verbatim>\<open>volume\<close> and \<^verbatim>\<open>location\<close>,
  if all three are present the answer is 200 and the appended document holds the three
  values unchanged; if one of them is absent, the document handed to the store holds
  \<^verbatim>\<open>undefined\<close>, the store client rejects it, the answer is 500 and nothing is stored.
\<close>

theorem no_validation_of_present_fields:
  assumes "truthy (opt_prop (field b ''user'') ''uid'')"
    and "\<not> has_undefined (JObj b)"
    and "i \<notin> set (issued st)"
  shows "(field b ''type'' \<noteq> JUndefined \<and> field b ''volume'' \<noteq> JUndefined
          \<and> field b ''location'' \<noteq> JUndefined \<longrightarrow>
            (\<exists>d. post_api_waste now (Inr i) b st =
                    (\<lparr>status = 200, body = Added ''Waste entry added'' i\<rparr>,
                     st\<lparr>wasteEntries := wasteEntries st @ [(i, d)],
                        requests := requests st + 1\<rparr>)
                  \<and> field d ''type'' = field b ''type''
                  \<and> field d ''volume'' = field b ''volume''
                  \<and> field d ''location'' = field b ''location''))
       \<and> (field b ''type'' = JUndefined \<or> field b ''volume'' = JUndefined
          \<or> field b ''location'' = JUndefined \<longrightarrow>
            post_api_waste now (Inr i) b st =
              (\<lparr>status = 500, body = ErrorBody ''Cannot use undefined as a Firestore value''\<rparr>,
               st\<lparr>requests := requests st + 1\<rparr>))"
proof (intro conjI impI)
  assume "field b ''type'' \<noteq> JUndefined \<and> field b ''volume'' \<noteq> JUndefined
          \<and> field b ''location'' \<noteq> JUndefined"
  with has_undefined_waste_document [OF assms(2,1), of now]
  have "\<not> has_undefined (JObj (waste_document now b))" by simp
  from post_api_waste_accepted [OF assms(1) this assms(3)] field_waste_document [of now b]
  show "\<exists>d. post_api_waste now (Inr i) b st =
                    (\<lparr>status = 200, body = Added ''Waste entry added'' i\<rparr>,
                     st\<lparr>wasteEntries := wasteEntries st @ [(i, d)],
                        requests := requests st + 1\<rparr>)
                  \<and> field d ''type'' = field b ''type''
                  \<and> field d ''volume'' = field b ''volume''
                  \<and> field d ''location'' = field b ''location''"
    by blast
next
  assume "field b ''type'' = JUndefined \<or> field b ''volume'' = JUndefined
          \<or> field b ''location'' = JUndefined"
  with has_undefined_waste_document [OF assms(2,1), of now]
  have "has_undefined (JObj (waste_document now b))" by simp
  from post_api_waste_rejected [OF assms(1) this]
  show "post_api_waste now (Inr i) b st =
              (\<lparr>status = 500, body = ErrorBody ''Cannot use undefined as a Firestore value''\<rparr>,
               st\<lparr>requests := requests st + 1\<rparr>)"
    by (simp add: undefined_value_def)
qed

theorem no_validation_of_present_fields_witness:
  "truthy (opt_prop (field [(''type'', JStr ''''), (''volume'', JNull), (''location'', JNum ''7''),
                            (''user'', JObj [(''uid'', JStr ''u1'')])] ''user'') ''uid'')
   \<and> \<not> has_undefined (JObj [(''type'', JStr ''''), (''volume'', JNull), (''location'', JNum ''7''),
                              (''user'', JObj [(''uid'', JStr ''u1'')])])
   \<and> ''w1'' \<notin> set (issued empty_store)
   \<and> field [(''type'', JStr ''''), (''volume'', JNull), (''location'', JNum ''7''),
            (''user'', JObj [(''uid'', JStr ''u1'')])] ''type'' = JStr ''''
   \<and> field [(''type'', JStr ''''), (''volume'', JNull), (''location'', JNum ''7''),
            (''user'', JObj [(''uid'', JStr ''u1'')])] ''volume'' = JNull
   \<and> field [(''type'', JStr ''''), (''volume'', JNull), (''location'', JNum ''7''),
            (''user'', JObj [(''uid'', JStr ''u1'')])] ''location'' = JNum ''7''
   \<and> (\<exists>d. post_api_waste ''2024-05-01T10:00:00.000Z'' (Inr ''w1'')
            [(''type'', JStr ''''), (''volume'', JNull), (''location'', JNum ''7''),
             (''user'', JObj [(''uid'', JStr ''u1'')])]
            empty_store =
          (\<lparr>status = 200, body = Added ''Waste entry added'' ''w1''\<rparr>,
           empty_store\<lparr>wasteEntries := wasteEntries empty_store @ [(''w1'', d)],
                        requests := requests empty_store + 1\<rparr>)
          \<and> field d ''type'' = JStr ''''
          \<and> field d ''volume'' = JNull
          \<and> field d ''location'' = JNum ''7'')"
proof -
  let ?b = "[(''type'', JStr ''''), (''volume'', JNull), (''location'', JNum ''7''),
             (''user'', JObj [(''uid'', JStr ''u1'')])]"
  have h: "truthy (opt_prop (field ?b ''user'') ''uid'')"
    by (simp add: opt_prop_def field_def)
  have j: "\<not> has_undefined (JObj ?b)" by simp
  have f: "''w1'' \<notin> set (issued empty_store)" by (simp add: issued_def empty_store_def)
  have p: "field ?b ''type'' = JStr ''''" "field ?b ''volume'' = JNull"
    "field ?b ''location'' = JNum ''7''"
    by (simp_all add: field_def)
  from no_validation_of_present_fields [OF h j f, of "''2024-05-01T10:00:00.000Z''"] h j f p
  show ?thesis by simp
qed

text \<open>
  C7 as stated (the write succeeds for an absent field too) fails on a body without
  \<^verbatim>\<open>location\<close>: the store generates an unused identifier, and the request is answered
  with 500; with the empty string as \<^verbatim>\<open>location\<close> the same request is answered with 200.
\<close>

theorem absent_field_is_rejected:
  "post_api_waste ''2024-05-01T10:00:00.000Z'' (Inr ''w1'')
      [(''type'', JStr ''Plastic''), (''volume'', JStr ''5 bags''),
       (''user'', JObj [(''uid'', JStr ''u1'')])] empty_store
     = (\<lparr>status = 500, body = ErrorBody ''Cannot use undefined as a Firestore value''\<rparr>,
        \<lparr>wasteEntries = [], events = [], requests = 1\<rparr>)
   \<and> post_api_waste ''2024-05-01T10:00:00.000Z'' (Inr ''w1'')
      [(''type'', JStr ''Plastic''), (''volume'', JStr ''5 bags''), (''location'', JStr ''''),
       (''user'', JObj [(''uid'', JStr ''u1'')])] empty_store
     = (\<lparr>status = 200, body = Added ''Waste entry added'' ''w1''\<rparr>,
        \<lparr>wasteEntries =
           [(''w1'', [(''type'', JStr ''Plastic''), (''volume'', JStr ''5 bags''),
                     (''location'', JStr ''''), (''submitterId'', JStr ''u1''),
                     (''submitterEmail'', JNull),
                     (''createdAt'', JStr ''2024-05-01T10:00:00.000Z'')])],
         events = [], requests = 1\<rparr>)"
  by (simp add: post_api_waste_def add_def opt_prop_def field_def or_else_def issued_def
      empty_store_def undefined_value_def)

section \<open>The read handlers\<close>

text \<open>The definitions that evaluate the fold on given entries.\<close>

lemmas stats_eval =
  computeStats_def callback_def count_up_def get_property_def set_property_def or_else_def
  field_def Let_def object_prototype_functions_def function_text_def

text \<open>A read answers from the waste-entry collection alone and leaves both collections.\<close>

lemma get_api_stats_contents:
  "fst (get_api_stats r st) = fst (get_api_stats r \<lparr>wasteEntries = wasteEntries st, events = ev, requests = n\<rparr>)"
  by (simp add: get_api_stats_def split: sum.splits)

lemma get_api_waste_contents:
  "fst (get_api_waste r st) = fst (get_api_waste r \<lparr>wasteEntries = wasteEntries st, events = ev, requests = n\<rparr>)"
  by (simp add: get_api_waste_def split: sum.splits)

lemma same_contents:
  "wasteEntries st = wasteEntries st' \<Longrightarrow> fst (get_api_stats r st) = fst (get_api_stats r st')"
  "wasteEntries st = wasteEntries st' \<Longrightarrow> fst (get_api_waste r st) = fst (get_api_waste r st')"
  by (simp_all add: get_api_stats_def get_api_waste_def split: sum.splits)

lemma reads_keep_collections:
  "wasteEntries (snd (get_api_stats r st)) = wasteEntries st"
  "events (snd (get_api_stats r st)) = events st"
  "wasteEntries (snd (get_api_waste r st)) = wasteEntries st"
  "events (snd (get_api_waste r st)) = events st"
  by (simp_all add: get_api_stats_def get_api_waste_def split: sum.splits)

lemma computeStats_permuted:
  assumes "mset es = mset es'" and "computeStats es = Inr s"
  shows "\<exists>s'. computeStats es' = Inr s' \<and> totalEntries s' = totalEntries s
           \<and> map_of (totalsByType s') = map_of (totalsByType s)
           \<and> map_of (totalsByUser s') = map_of (totalsByUser s)"
proof -
  from assms(1) have "set es = set es'" by (rule mset_eq_setD)
  with assms(2) computeStats_returns [of es] computeStats_returns [of es']
  obtain s' where s': "computeStats es' = Inr s'" by blast
  have "totalEntries s' = totalEntries s"
    using computeStats_slots [OF s'] computeStats_slots [OF assms(2)] mset_eq_length [OF assms(1)]
    by simp
  moreover have "map_of (totalsByType s') = map_of (totalsByType s)"
    using computeStats_slots [OF s'] computeStats_slots [OF assms(2)] hits_mset [OF assms(1)]
    by (intro ext) simp
  moreover have "map_of (totalsByUser s') = map_of (totalsByUser s)"
    using computeStats_slots [OF s'] computeStats_slots [OF assms(2)] hits_mset [OF assms(1)]
    by (intro ext) simp
  ultimately show ?thesis using s' by blast
qed

lemma computeStats_permuted_throws:
  assumes "mset es = mset es'" and "computeStats es = Inl x"
  shows "computeStats es' = Inl x"
proof -
  from assms(1) have eq: "set es = set es'" by (rule mset_eq_setD)
  from assms(2) have x: "x = cannot_convert" by (rule computeStats_throws)
  from assms(2) have "\<not> (\<exists>s. computeStats es = Inr s)" by simp
  with eq computeStats_returns [of es] computeStats_returns [of es']
  have "\<not> (\<exists>s. computeStats es' = Inr s)" by simp
  then obtain y where y: "computeStats es' = Inl y" by (cases "computeStats es'") auto
  from computeStats_throws [OF y] x y show ?thesis by simp
qed

text \<open>
  C5: \<^verbatim>\<open>GET /api/stats\<close> and \<^verbatim>\<open>GET /api/waste\<close> are reads whose answer depends on the
  contents of the waste-entry collection only: it is the same in every store with these
  contents, and the same again after a read (no intervening write); and the fold is
  independent of the order of the entries: for every permutation of the entries it
  returns the same \<^verbatim>\<open>totalEntries\<close> and the same \<^verbatim>\<open>totalsByType\<close> and
  \<^verbatim>\<open>totalsByUser\<close> as maps, or throws the same error.
\<close>

theorem reads_depend_on_contents_only:
  assumes "mset es = mset es'"
  shows "fst (get_api_stats r st) =
           fst (get_api_stats r \<lparr>wasteEntries = wasteEntries st, events = ev, requests = n\<rparr>)
       \<and> fst (get_api_waste r st) =
           fst (get_api_waste r \<lparr>wasteEntries = wasteEntries st, events = ev, requests = n\<rparr>)
       \<and> fst (get_api_stats r (snd (get_api_stats r' st))) = fst (get_api_stats r st)
       \<and> fst (get_api_waste r (snd (get_api_waste r' st))) = fst (get_api_waste r st)
       \<and> (\<forall>s. computeStats es = Inr s \<longrightarrow>
            (\<exists>s'. computeStats es' = Inr s' \<and> totalEntries s' = totalEntries s
               \<and> map_of (totalsByType s') = map_of (totalsByType s)
               \<and> map_of (totalsByUser s') = map_of (totalsByUser s)))
       \<and> (\<forall>x. computeStats es = Inl x \<longrightarrow> computeStats es' = Inl x)"
proof -
  have a: "fst (get_api_stats r (snd (get_api_stats r' st))) = fst (get_api_stats r st)"
    by (rule same_contents(1)) (simp add: reads_keep_collections)
  have b: "fst (get_api_waste r (snd (get_api_waste r' st))) = fst (get_api_waste r st)"
    by (rule same_contents(2)) (simp add: reads_keep_collections)
  from a b get_api_stats_contents [of r st ev n] get_api_waste_contents [of r st ev n]
    computeStats_permuted [OF assms] computeStats_permuted_throws [OF assms]
  show ?thesis by blast
qed

theorem reads_depend_on_contents_only_witness:
  "mset [[(''type'', JStr ''Plastic''), (''submitterId'', JStr ''u1'')],
         [(''type'', JStr ''Glass''), (''submitterId'', JStr ''u2'')]]
   = mset [[(''type'', JStr ''Glass''), (''submitterId'', JStr ''u2'')],
           [(''type'', JStr ''Plastic''), (''submitterId'', JStr ''u1'')]]
   \<and> computeStats [[(''type'', JStr ''Plastic''), (''submitterId'', JStr ''u1'')],
                    [(''type'', JStr ''Glass''), (''submitterId'', JStr ''u2'')]]
     = Inr \<lparr>totalEntries = 2,
            totalsByType = [(''Plastic'', Count 1), (''Glass'', Count 1)],
            totalsByUser = [(''u1'', Count 1), (''u2'', Count 1)]\<rparr>
   \<and> (\<exists>s'. computeStats [[(''type'', JStr ''Glass''), (''submitterId'', JStr ''u2'')],
                          [(''type'', JStr ''Plastic''), (''submitterId'', JStr ''u1'')]] = Inr s'
          \<and> totalEntries s' = 2
          \<and> map_of (totalsByType s') = map_of [(''Plastic'', Count 1), (''Glass'', Count 1)]
          \<and> map_of (totalsByUser s') = map_of [(''u1'', Count 1), (''u2'', Count 1)])"
proof -
  let ?es = "[[(''type'', JStr ''Plastic''), (''submitterId'', JStr ''u1'')],
              [(''type'', JStr ''Glass''), (''submitterId'', JStr ''u2'')]]"
  let ?es' = "[[(''type'', JStr ''Glass''), (''submitterId'', JStr ''u2'')],
               [(''type'', JStr ''Plastic''), (''submitterId'', JStr ''u1'')]]"
  have h: "mset ?es = mset ?es'" by simp
  have e: "computeStats ?es
     = Inr \<lparr>totalEntries = 2,
            totalsByType = [(''Plastic'', Count 1), (''Glass'', Count 1)],
            totalsByUser = [(''u1'', Count 1), (''u2'', Count 1)]\<rparr>"
    by (simp add: stats_eval)
  from reads_depend_on_contents_only [OF h, of None empty_store "[]" 0 None] e
  have "\<exists>s'. computeStats ?es' = Inr s'
          \<and> totalEntries s' = 2
          \<and> map_of (totalsByType s') = map_of [(''Plastic'', Count 1), (''Glass'', Count 1)]
          \<and> map_of (totalsByUser s') = map_of [(''u1'', Count 1), (''u2'', Count 1)]"
    by simp
  with h e show ?thesis by blast
qed

section \<open>The fallback keys\<close>

lemma type_key_Unknown:
  "type_key e = Inr ''Unknown'' \<longleftrightarrow>
     \<not> truthy (field e ''type'') \<or> ToString (field e ''type'') = Inr ''Unknown''"
  by (auto simp: type_key_def or_else_def)

lemma user_key_unknown:
  "user_key e = Inr ''unknown'' \<longleftrightarrow>
     \<not> truthy (field e ''submitterId'') \<or> ToString (field e ''submitterId'') = Inr ''unknown''"
  by (auto simp: user_key_def or_else_def)

lemma slot_after_fallback:
  "slot_after ''Unknown'' n = (if n = 0 then None else Some (Count n))"
  "slot_after ''unknown'' n = (if n = 0 then None else Some (Count n))"
  by (simp_all add: slot_after_def object_prototype_functions_def)

text \<open>
  C9: the fallback keys are taken for every falsy field, not only for an absent one: the
  empty string, \<^verbatim>\<open>null\<close> and \<^verbatim>\<open>undefined\<close> are falsy, and in the summary of any
  collection the slot \<^verbatim>\<open>"Unknown"\<close> of \<^verbatim>\<open>totalsByType\<close> is the number of entries whose
  \<^verbatim>\<open>type\<close> is falsy or reads \<^verbatim>\<open>"Unknown"\<close>; likewise the slot \<^verbatim>\<open>"unknown"\<close> of
  \<^verbatim>\<open>totalsByUser\<close> for \<^verbatim>\<open>submitterId\<close>.
\<close>

theorem falsy_fields_count_under_fallback_keys:
  assumes "computeStats es = Inr s"
  shows "\<not> truthy (JStr '''') \<and> \<not> truthy JNull \<and> \<not> truthy JUndefined
       \<and> map_of (totalsByType s) ''Unknown'' =
           (let n = length (filter (\<lambda>e. \<not> truthy (field e ''type'')
                                        \<or> ToString (field e ''type'') = Inr ''Unknown'') es)
            in if n = 0 then None else Some (Count n))
       \<and> map_of (totalsByUser s) ''unknown'' =
           (let n = length (filter (\<lambda>e. \<not> truthy (field e ''submitterId'')
                                        \<or> ToString (field e ''submitterId'') = Inr ''unknown'') es)
            in if n = 0 then None else Some (Count n))"
  using computeStats_slots [OF assms, of "''Unknown''"] computeStats_slots [OF assms, of "''unknown''"]
  by (simp add: hits_def type_key_Unknown user_key_unknown slot_after_fallback Let_def)

theorem falsy_fields_count_under_fallback_keys_witness:
  "computeStats [[(''type'', JStr ''''), (''submitterId'', JNull)],
                 [(''type'', JNull), (''submitterId'', JStr ''u1'')]]
     = Inr \<lparr>totalEntries = 2,
            totalsByType = [(''Unknown'', Count 2)],
            totalsByUser = [(''unknown'', Count 1), (''u1'', Count 1)]\<rparr>
   \<and> map_of [(''Unknown'', Count 2)] ''Unknown'' = Some (Count 2)
   \<and> map_of [(''unknown'', Count 1), (''u1'', Count 1)] ''unknown'' = Some (Count 1)"
proof -
  have e: "computeStats [[(''type'', JStr ''''), (''submitterId'', JNull)],
                 [(''type'', JNull), (''submitterId'', JStr ''u1'')]]
     = Inr \<lparr>totalEntries = 2,
            totalsByType = [(''Unknown'', Count 2)],
            totalsByUser = [(''unknown'', Count 1), (''u1'', Count 1)]\<rparr>"
    by (simp add: stats_eval)
  from falsy_fields_count_under_fallback_keys [OF e] e show ?thesis
    by simp
qed

section \<open>The sums of the counters\<close>

text \<open>
  C1 asks that the values of \<^verbatim>\<open>totalsByType\<close> and those of \<^verbatim>\<open>totalsByUser\<close> each sum
  to \<^verbatim>\<open>totalEntries\<close>. After one successful \<^verbatim>\<open>POST /api/waste\<close> whose \<^verbatim>\<open>type\<close> is
  \<^verbatim>\<open>"__proto__"\<close>, \<^verbatim>\<open>GET /api/stats\<close> answers with \<^verbatim>\<open>totalEntries\<close> 1 and an empty
  \<^verbatim>\<open>totalsByType\<close>, whose values sum to 0; with the \<^verbatim>\<open>type\<close> \<^verbatim>\<open>"constructor"\<close> the
  only value of \<^verbatim>\<open>totalsByType\<close> is a string, and there is no sum.
\<close>

theorem inherited_key_breaks_the_sum:
  "fst (get_api_stats None
         (creations
            [(''2024-05-01T10:00:00.000Z'', Inr ''w1'',
              [(''type'', JStr ''__proto__''), (''volume'', JStr ''1 bag''),
               (''location'', JStr ''Zapote''), (''user'', JObj [(''uid'', JStr ''u1'')])])]
            empty_store))
     = \<lparr>status = 200,
        body = Summary \<lparr>totalEntries = 1, totalsByType = [],
                        totalsByUser = [(''u1'', Count 1)]\<rparr>\<rparr>
   \<and> sum_values [] = Some 0
   \<and> sum_values [(''u1'', Count 1)] = Some 1
   \<and> fst (get_api_stats None
         (creations
            [(''2024-05-01T10:00:00.000Z'', Inr ''w1'',
              [(''type'', JStr ''constructor''), (''volume'', JStr ''1 bag''),
               (''location'', JStr ''Zapote''), (''user'', JObj [(''uid'', JStr ''u1'')])])]
            empty_store))
     = \<lparr>status = 200,
        body = Summary \<lparr>totalEntries = 1,
                        totalsByType = [(''constructor'', Text ''function Object() { [native code] }1'')],
                        totalsByUser = [(''u1'', Count 1)]\<rparr>\<rparr>
   \<and> sum_values [(''constructor'', Text ''function Object() { [native code] }1'')] = None"
  by (simp add: stats_eval get_api_stats_def get_def post_api_waste_def add_def opt_prop_def
      issued_def empty_store_def)

section \<open>The fold against the specification's words\<close>

text \<open>
  On counters that hold numbers, and under a key that an object literal does not inherit,
  \<^verbatim>\<open>m[k] = (m[k] || 0) + 1\<close> is an increment.
\<close>

lemma map_of_counts:
  "map_of (map (\<lambda>(k, c). (k, Count c)) m) k = map_option Count (map_of m k)"
  by (induction m) auto

lemma update_counts:
  "AList.update k (Count c) (map (\<lambda>(k, c). (k, Count c)) m)
     = map (\<lambda>(k, c). (k, Count c)) (AList.update k c m)"
  by (induction m) auto

lemma count_up_counts:
  assumes "ToString v = Inr k" and "\<not> inherited k"
  shows "count_up (map (\<lambda>(k, c). (k, Count c)) m) v
           = Inr (map (\<lambda>(k, c). (k, Count c)) (increment m k))"
proof (cases "map_of m k")
  case None
  with assms show ?thesis
    by (simp add: count_up_def get_property_def set_property_def inherited_def increment_def
        map_of_counts update_counts)
next
  case (Some c)
  with assms show ?thesis
    by (simp add: count_up_def get_property_def set_property_def inherited_def increment_def
        map_of_counts update_counts)
qed

lemma callback_counts:
  assumes "type_key e = Inr t" and "user_key e = Inr u"
    and "\<not> inherited t" and "\<not> inherited u"
  shows "callback (summary_of (n, byType, byUser)) e =
           Inr (summary_of (n + 1, increment byType t, increment byUser u))"
  using count_up_counts [OF assms(1) [unfolded type_key_def] assms(3), of byType]
    count_up_counts [OF assms(2) [unfolded user_key_def] assms(4), of byUser]
  by (simp add: callback_def summary_of_def)

lemma callback_throws:
  "type_key e = Inl x \<Longrightarrow> callback s e = Inl x"
  "type_key e = Inr t \<Longrightarrow> user_key e = Inl x \<Longrightarrow> callback s e = Inl x"
  by (simp_all add: callback_def count_up_def type_key_def user_key_def)

lemma forEach_counts:
  assumes "\<forall>e\<in>set es. plain (type_key e) \<and> plain (user_key e)"
  shows "forEach es (summary_of acc) =
           (case counting_fold es acc of Inl x \<Rightarrow> Inl x | Inr acc' \<Rightarrow> Inr (summary_of acc'))"
  using assms
proof (induction es arbitrary: acc)
  case Nil
  then show ?case by simp
next
  case (Cons e es)
  obtain n byType byUser where acc: "acc = (n, byType, byUser)" by (cases acc) auto
  from Cons.prems have e: "plain (type_key e)" "plain (user_key e)"
    and rest: "\<forall>e\<in>set es. plain (type_key e) \<and> plain (user_key e)"
    by simp_all
  show ?case
  proof (cases "type_key e")
    case (Inl x)
    then show ?thesis by (simp add: acc callback_throws)
  next
    case t: (Inr t)
    show ?thesis
    proof (cases "user_key e")
      case (Inl x)
      with t show ?thesis by (simp add: acc callback_throws)
    next
      case u: (Inr u)
      from e t u have "\<not> inherited t" "\<not> inherited u" by simp_all
      from callback_counts [OF t u this] Cons.IH [OF rest] t u
      show ?thesis by (simp add: acc)
    qed
  qed
qed

text \<open>
  C2, as the code has it: the fold starts from \<^verbatim>\<open>totalEntries = 0\<close> and empty counters
  and, for each entry, increments \<^verbatim>\<open>totalEntries\<close>, increments \<^verbatim>\<open>totalsByType[t]\<close> where
  \<^verbatim>\<open>t\<close> is \<^verbatim>\<open>entry.type\<close> if that is truthy, else \<^verbatim>\<open>"Unknown"\<close>, and increments
  \<^verbatim>\<open>totalsByUser[u]\<close> where \<^verbatim>\<open>u\<close> is \<^verbatim>\<open>entry.submitterId\<close> if that is truthy, else
  \<^verbatim>\<open>"unknown"\<close>; this for every collection in which no property key of a \<^verbatim>\<open>t\<close> or a
  \<^verbatim>\<open>u\<close> is a name that an object literal inherits, whatever values the fields hold
  (a \<^verbatim>\<open>t\<close> or \<^verbatim>\<open>u\<close> that has no property key, an object with a field of its own
  named \<^verbatim>\<open>toString\<close>, ends the fold with the \<^verbatim>\<open>TypeError\<close> that the handler answers with
  500). An entry with no \<^verbatim>\<open>type\<close> field is counted under \<^verbatim>\<open>"Unknown"\<close>.
\<close>

theorem stats_fold_counts_truthy_fields:
  assumes "\<forall>e\<in>set es. plain (type_key e) \<and> plain (user_key e)"
  shows "computeStats es = counting_computeStats es"
  using forEach_counts [OF assms, of "(0, [], [])"]
  by (simp add: computeStats_def counting_computeStats_def summary_of_def)

theorem stats_fold_counts_truthy_fields_witness:
  "plain (type_key [(''submitterId'', JStr ''u1'')])
   \<and> plain (user_key [(''submitterId'', JStr ''u1'')])
   \<and> plain (type_key [(''type'', JNum ''42''), (''submitterId'', JStr ''u1'')])
   \<and> plain (user_key [(''type'', JNum ''42''), (''submitterId'', JStr ''u1'')])
   \<and> type_key [(''submitterId'', JStr ''u1'')] = Inr ''Unknown''
   \<and> type_key [(''type'', JNum ''42''), (''submitterId'', JStr ''u1'')] = Inr ''42''
   \<and> counting_computeStats [[(''submitterId'', JStr ''u1'')],
                             [(''type'', JNum ''42''), (''submitterId'', JStr ''u1'')]]
       = Inr \<lparr>totalEntries = 2,
              totalsByType = [(''Unknown'', Count 1), (''42'', Count 1)],
              totalsByUser = [(''u1'', Count 2)]\<rparr>
   \<and> computeStats [[(''submitterId'', JStr ''u1'')],
                    [(''type'', JNum ''42''), (''submitterId'', JStr ''u1'')]]
       = Inr \<lparr>totalEntries = 2,
              totalsByType = [(''Unknown'', Count 1), (''42'', Count 1)],
              totalsByUser = [(''u1'', Count 2)]\<rparr>"
proof -
  let ?d1 = "[(''submitterId'', JStr ''u1'')]"
  let ?d2 = "[(''type'', JNum ''42''), (''submitterId'', JStr ''u1'')]"
  have k: "type_key ?d1 = Inr ''Unknown''" "user_key ?d1 = Inr ''u1''"
    "type_key ?d2 = Inr ''42''" "user_key ?d2 = Inr ''u1''"
    by (simp_all add: type_key_def user_key_def or_else_def field_def)
  have p: "plain (type_key ?d1)" "plain (user_key ?d1)"
    "plain (type_key ?d2)" "plain (user_key ?d2)"
    by (simp_all add: k inherited_def object_prototype_functions_def)
  from p have h: "\<forall>e\<in>set [?d1, ?d2]. plain (type_key e) \<and> plain (user_key e)"
    by simp
  have v: "counting_computeStats [?d1, ?d2]
       = Inr \<lparr>totalEntries = 2,
              totalsByType = [(''Unknown'', Count 1), (''42'', Count 1)],
              totalsByUser = [(''u1'', Count 2)]\<rparr>"
    by (simp add: counting_computeStats_def k summary_of_def increment_def)
  from stats_fold_counts_truthy_fields [OF h] v p k show ?thesis by simp
qed

text \<open>
  C2 as the specification words it (\<^verbatim>\<open>t\<close> is \<^verbatim>\<open>entry.type\<close> if present) fails on an
  entry whose \<^verbatim>\<open>type\<close> is the empty string: the specification's fold counts it under
  the key \<^verbatim>\<open>""\<close>, the source under \<^verbatim>\<open>"Unknown"\<close>.
\<close>

theorem spec_fold_differs_on_empty_type:
  "computeStats [[(''type'', JStr ''''), (''submitterId'', JStr ''u1'')]]
     = Inr \<lparr>totalEntries = 1, totalsByType = [(''Unknown'', Count 1)],
            totalsByUser = [(''u1'', Count 1)]\<rparr>
   \<and> summary_of (spec_computeStats [[(''type'', JStr ''''), (''submitterId'', JStr ''u1'')]])
     = \<lparr>totalEntries = 1, totalsByType = [('''', Count 1)],
        totalsByUser = [(''u1'', Count 1)]\<rparr>
   \<and> computeStats [[(''type'', JStr ''''), (''submitterId'', JStr ''u1'')]]
     \<noteq> Inr (summary_of (spec_computeStats [[(''type'', JStr ''''), (''submitterId'', JStr ''u1'')]]))"
  by (simp add: stats_eval spec_computeStats_def summary_of_def increment_def key_if_present_def)

text \<open>
  So the sums of the counters are \<^verbatim>\<open>totalEntries\<close> as long as no key is an inherited name.
\<close>

lemma sum_values_counts:
  "sum_values (map (\<lambda>(k, c). (k, Count c)) m) = Some (sum_list (map snd m))"
  by (induction m) auto

lemma sum_increment: "sum_list (map snd (increment m k)) = sum_list (map snd m) + 1"
proof -
  have "sum_list (map snd (AList.update k (Suc c) m)) = sum_list (map snd m) + 1"
    if "map_of m k = Some c" for c
    using that by (induction m) (auto split: if_splits)
  moreover have "sum_list (map snd (AList.update k 1 m)) = sum_list (map snd m) + 1"
    if "map_of m k = None"
    using that by (induction m) (auto split: if_splits)
  ultimately show ?thesis
    by (cases "map_of m k") (simp_all add: increment_def)
qed

lemma counting_fold_sums:
  assumes "counting_fold es (n, byType, byUser) = Inr (n', byType', byUser')"
    and "sum_list (map snd byType) = n" and "sum_list (map snd byUser) = n"
  shows "n' = n + length es \<and> sum_list (map snd byType') = n' \<and> sum_list (map snd byUser') = n'"
  using assms
proof (induction es arbitrary: n byType byUser)
  case Nil
  then show ?case by simp
next
  case (Cons e es)
  from Cons.prems(1) obtain t u where t: "type_key e = Inr t" and u: "user_key e = Inr u"
    and rest: "counting_fold es (n + 1, increment byType t, increment byUser u)
                 = Inr (n', byType', byUser')"
    by (auto split: sum.splits)
  from Cons.IH [OF rest] Cons.prems(2,3) show ?case by (simp add: sum_increment)
qed

lemma sums_without_inherited_keys:
  assumes "\<forall>e\<in>set es. plain (type_key e) \<and> plain (user_key e)"
    and "computeStats es = Inr s"
  shows "totalEntries s = length es
       \<and> sum_values (totalsByType s) = Some (totalEntries s)
       \<and> sum_values (totalsByUser s) = Some (totalEntries s)"
proof -
  from forEach_counts [OF assms(1), of "(0, [], [])"] assms(2)
  obtain acc where f: "counting_fold es (0, [], []) = Inr acc" and s: "s = summary_of acc"
    by (auto simp: computeStats_def summary_of_def split: sum.splits)
  obtain n byType byUser where acc: "acc = (n, byType, byUser)" by (cases acc) auto
  from counting_fold_sums [OF f [unfolded acc]]
  have "n = length es" "sum_list (map snd byType) = n" "sum_list (map snd byUser) = n"
    by simp_all
  then show ?thesis by (simp add: s acc summary_of_def sum_values_counts)
qed

section \<open>Entries created through the write handler\<close>

text \<open>
  The waste entries after a run of requests are those before it and, in their order, the
  documents of the requests that were answered with 200.
\<close>

lemma post_api_waste_appends:
  assumes "status (fst (post_api_waste now reply b st)) = 200"
  shows "map snd (wasteEntries (snd (post_api_waste now reply b st)))
           = map snd (wasteEntries st) @ [waste_document now b]"
    and "truthy (opt_prop (field b ''user'') ''uid'')"
proof -
  obtain res st' where r: "post_api_waste now reply b st = (res, st')"
    by (cases "post_api_waste now reply b st") auto
  with assms have "status res = 200" by simp
  from post_api_waste_200 [OF r this] r
  show "map snd (wasteEntries (snd (post_api_waste now reply b st)))
           = map snd (wasteEntries st) @ [waste_document now b]"
    and "truthy (opt_prop (field b ''user'') ''uid'')"
    by auto
qed

lemma creations_documents:
  "map snd (wasteEntries (creations cs st))
     = map snd (wasteEntries st)
       @ map (\<lambda>(now, reply, b). waste_document now b) (succeeded cs st)"
proof (induction cs arbitrary: st)
  case Nil
  then show ?case by simp
next
  case (Cons c cs)
  obtain now reply b where c: "c = (now, reply, b)" by (cases c) auto
  show ?case
  proof (cases "status (fst (post_api_waste now reply b st)) = 200")
    case True
    from post_api_waste_appends(1) [OF True] Cons.IH [of "snd (post_api_waste now reply b st)"] True
    show ?thesis by (simp add: c)
  next
    case False
    from post_api_waste_not_200(1) [OF False] Cons.IH [of "snd (post_api_waste now reply b st)"] False
    show ?thesis by (simp add: c)
  qed
qed

lemma succeeded_truthy:
  "(now, reply, b) \<in> set (succeeded cs st) \<Longrightarrow> truthy (opt_prop (field b ''user'') ''uid'')"
proof (induction cs arbitrary: st)
  case Nil
  then show ?case by simp
next
  case (Cons c cs)
  obtain now' reply' b' where c: "c = (now', reply', b')" by (cases c) auto
  from Cons.prems c consider
    (here) "status (fst (post_api_waste now' reply' b' st)) = 200" "(now, reply, b) = (now', reply', b')"
    | (later) "(now, reply, b) \<in> set (succeeded cs (snd (post_api_waste now' reply' b' st)))"
    by (auto split: if_splits)
  then show ?case
  proof cases
    case here
    from post_api_waste_appends(2) [OF here(1)] here(2) show ?thesis by simp
  next
    case later
    then show ?thesis by (rule Cons.IH)
  qed
qed

text \<open>
  C10, as the code has it: the document appended by a successful \<^verbatim>\<open>POST /api/waste\<close> has
  a \<^verbatim>\<open>submitterId\<close> that is the \<^verbatim>\<open>user.uid\<close> of that request, which is truthy, and a
  \<^verbatim>\<open>submitterEmail\<close> that is the request's \<^verbatim>\<open>user.email\<close> or \<^verbatim>\<open>null\<close>; the waste
  entries that a run of requests leaves in an empty store are, one for one and in their
  order, the documents of the requests that succeeded; consequently, when the
  \<^verbatim>\<open>user.uid\<close> of no successful request converts to the key \<^verbatim>\<open>"unknown"\<close>, the
  \<^verbatim>\<open>totalsByUser\<close> of the statistics has no key \<^verbatim>\<open>"unknown"\<close>.
\<close>

theorem created_entries_carry_their_uid:
  "(post_api_waste now reply b st = (res, st') \<and> status res = 200 \<longrightarrow>
      (\<exists>i d. wasteEntries st' = wasteEntries st @ [(i, d)]
         \<and> truthy (read_prop (field b ''user'') ''uid'')
         \<and> field d ''submitterId'' = read_prop (field b ''user'') ''uid''
         \<and> (field d ''submitterEmail'' = read_prop (field b ''user'') ''email''
            \<or> field d ''submitterEmail'' = JNull)))
   \<and> map snd (wasteEntries (creations cs empty_store))
       = map (\<lambda>(now, reply, b). waste_document now b) (succeeded cs empty_store)
   \<and> map (\<lambda>d. field d ''submitterId'') (map snd (wasteEntries (creations cs empty_store)))
       = map (\<lambda>(now, reply, b). read_prop (field b ''user'') ''uid'') (succeeded cs empty_store)
   \<and> ((\<forall>(now, reply, b)\<in>set (succeeded cs empty_store).
          ToString (read_prop (field b ''user'') ''uid'') \<noteq> Inr ''unknown'')
       \<longrightarrow> (\<forall>s. computeStats (map snd (wasteEntries (creations cs empty_store))) = Inr s
              \<longrightarrow> map_of (totalsByUser s) ''unknown'' = None))"
proof (intro conjI impI)
  assume "post_api_waste now reply b st = (res, st') \<and> status res = 200"
  then have r: "post_api_waste now reply b st = (res, st')" and ok: "status res = 200"
    by simp_all
  from post_api_waste_200 [OF r ok] obtain i where
    g: "truthy (opt_prop (field b ''user'') ''uid'')"
    and st': "st' = st\<lparr>wasteEntries := wasteEntries st @ [(i, waste_document now b)],
                       requests := requests st + 1\<rparr>"
    by blast
  from guard_gives_object [OF g] g have t: "truthy (read_prop (field b ''user'') ''uid'')"
    by auto
  have "field (waste_document now b) ''submitterEmail'' = read_prop (field b ''user'') ''email''
            \<or> field (waste_document now b) ''submitterEmail'' = JNull"
    by (simp add: field_waste_document or_else_def)
  with t st' field_waste_document(4) [of now b]
  show "\<exists>i d. wasteEntries st' = wasteEntries st @ [(i, d)]
         \<and> truthy (read_prop (field b ''user'') ''uid'')
         \<and> field d ''submitterId'' = read_prop (field b ''user'') ''uid''
         \<and> (field d ''submitterEmail'' = read_prop (field b ''user'') ''email''
            \<or> field d ''submitterEmail'' = JNull)"
    by auto
next
  show docs: "map snd (wasteEntries (creations cs empty_store))
       = map (\<lambda>(now, reply, b). waste_document now b) (succeeded cs empty_store)"
    using creations_documents [of cs empty_store] by (simp add: empty_store_def)
  then show "map (\<lambda>d. field d ''submitterId'') (map snd (wasteEntries (creations cs empty_store)))
       = map (\<lambda>(now, reply, b). read_prop (field b ''user'') ''uid'') (succeeded cs empty_store)"
    by (simp add: field_waste_document case_prod_unfold comp_def)
  assume h: "\<forall>(now, reply, b)\<in>set (succeeded cs empty_store).
          ToString (read_prop (field b ''user'') ''uid'') \<noteq> Inr ''unknown''"
  let ?docs = "map snd (wasteEntries (creations cs empty_store))"
  have no: "user_key d \<noteq> Inr ''unknown''" if "d \<in> set ?docs" for d
  proof -
    from that docs obtain now reply b where c: "(now, reply, b) \<in> set (succeeded cs empty_store)"
      and d: "d = waste_document now b"
      by auto
    from succeeded_truthy [OF c] guard_gives_object [of "field b ''user''" "''uid''"]
    have "truthy (read_prop (field b ''user'') ''uid'')" by auto
    with h c show ?thesis
      by (auto simp: user_key_def or_else_def d field_waste_document)
  qed
  have "hits user_key ''unknown'' ?docs = 0"
    using no by (auto simp: hits_def filter_empty_conv)
  then show "\<forall>s. computeStats ?docs = Inr s \<longrightarrow> map_of (totalsByUser s) ''unknown'' = None"
    using computeStats_slots [of ?docs _ "''unknown''"]
    by (simp add: slot_after_def)
qed

theorem created_entries_carry_their_uid_witness:
  "post_api_waste ''2024-05-01T10:05:00.000Z'' (Inr ''w1'')
      [(''type'', JStr ''Plastic''), (''volume'', JStr ''5 bags''), (''location'', JStr ''Zapote''),
       (''user'', JObj [(''uid'', JStr ''u1'')])]
      \<lparr>wasteEntries = [], events = [], requests = 1\<rparr>
     = (\<lparr>status = 200, body = Added ''Waste entry added'' ''w1''\<rparr>,
        \<lparr>wasteEntries =
           [(''w1'', [(''type'', JStr ''Plastic''), (''volume'', JStr ''5 bags''),
                     (''location'', JStr ''Zapote''), (''submitterId'', JStr ''u1''),
                     (''submitterEmail'', JNull),
                     (''createdAt'', JStr ''2024-05-01T10:05:00.000Z'')])],
         events = [], requests = 2\<rparr>)
   \<and> succeeded
        [(''2024-05-01T10:00:00.000Z'', Inl (StorageError ''unavailable''),
          [(''type'', JStr ''Glass''), (''volume'', JStr ''1 bag''), (''location'', JStr ''Talon''),
           (''user'', JObj [(''uid'', JStr ''unknown'')])]),
         (''2024-05-01T10:05:00.000Z'', Inr ''w1'',
          [(''type'', JStr ''Plastic''), (''volume'', JStr ''5 bags''), (''location'', JStr ''Zapote''),
           (''user'', JObj [(''uid'', JStr ''u1'')])])]
        empty_store
     = [(''2024-05-01T10:05:00.000Z'', Inr ''w1'',
          [(''type'', JStr ''Plastic''), (''volume'', JStr ''5 bags''), (''location'', JStr ''Zapote''),
           (''user'', JObj [(''uid'', JStr ''u1'')])])]
   \<and> ToString (read_prop (field
        [(''type'', JStr ''Plastic''), (''volume'', JStr ''5 bags''), (''location'', JStr ''Zapote''),
         (''user'', JObj [(''uid'', JStr ''u1'')])] ''user'') ''uid'') = Inr ''u1''
   \<and> computeStats (map snd (wasteEntries (creations
        [(''2024-05-01T10:00:00.000Z'', Inl (StorageError ''unavailable''),
          [(''type'', JStr ''Glass''), (''volume'', JStr ''1 bag''), (''location'', JStr ''Talon''),
           (''user'', JObj [(''uid'', JStr ''unknown'')])]),
         (''2024-05-01T10:05:00.000Z'', Inr ''w1'',
          [(''type'', JStr ''Plastic''), (''volume'', JStr ''5 bags''), (''location'', JStr ''Zapote''),
           (''user'', JObj [(''uid'', JStr ''u1'')])])]
        empty_store)))
     = Inr \<lparr>totalEntries = 1, totalsByType = [(''Plastic'', Count 1)],
            totalsByUser = [(''u1'', Count 1)]\<rparr>
   \<and> map_of [(''u1'', Count 1)] ''unknown'' = None"
proof -
  let ?b0 = "[(''type'', JStr ''Glass''), (''volume'', JStr ''1 bag''), (''location'', JStr ''Talon''),
           (''user'', JObj [(''uid'', JStr ''unknown'')])]"
  let ?b1 = "[(''type'', JStr ''Plastic''), (''volume'', JStr ''5 bags''), (''location'', JStr ''Zapote''),
       (''user'', JObj [(''uid'', JStr ''u1'')])]"
  let ?cs = "[(''2024-05-01T10:00:00.000Z'', Inl (StorageError ''unavailable''), ?b0),
              (''2024-05-01T10:05:00.000Z'', Inr ''w1'', ?b1)]"
  let ?st1 = "\<lparr>wasteEntries = [], events = [], requests = 1\<rparr>"
  let ?res = "\<lparr>status = 200, body = Added ''Waste entry added'' ''w1''\<rparr>"
  let ?st2 = "\<lparr>wasteEntries =
           [(''w1'', [(''type'', JStr ''Plastic''), (''volume'', JStr ''5 bags''),
                     (''location'', JStr ''Zapote''), (''submitterId'', JStr ''u1''),
                     (''submitterEmail'', JNull),
                     (''createdAt'', JStr ''2024-05-01T10:05:00.000Z'')])],
         events = [], requests = 2\<rparr>"
  have run: "post_api_waste ''2024-05-01T10:05:00.000Z'' (Inr ''w1'') ?b1 ?st1 = (?res, ?st2)"
    by (simp add: post_api_waste_def add_def opt_prop_def field_def or_else_def issued_def)
  have fail: "post_api_waste ''2024-05-01T10:00:00.000Z'' (Inl (StorageError ''unavailable'')) ?b0
                empty_store
              = (\<lparr>status = 500, body = ErrorBody ''unavailable''\<rparr>, ?st1)"
    by (simp add: post_api_waste_def add_def opt_prop_def field_def empty_store_def)
  have s: "succeeded ?cs empty_store = [(''2024-05-01T10:05:00.000Z'', Inr ''w1'', ?b1)]"
    using fail run by simp
  have u: "ToString (read_prop (field ?b1 ''user'') ''uid'') = Inr ''u1''"
    by (simp add: field_def)
  have c: "creations ?cs empty_store = ?st2"
    using fail run by simp
  have e: "computeStats (map snd (wasteEntries (creations ?cs empty_store)))
     = Inr \<lparr>totalEntries = 1, totalsByType = [(''Plastic'', Count 1)],
            totalsByUser = [(''u1'', Count 1)]\<rparr>"
    unfolding c by (simp add: stats_eval)
  have h: "\<forall>(now, reply, b)\<in>set (succeeded ?cs empty_store).
          ToString (read_prop (field b ''user'') ''uid'') \<noteq> Inr ''unknown''"
    unfolding s using u by simp
  from created_entries_carry_their_uid
    [of "''2024-05-01T10:05:00.000Z''" "Inr ''w1''" ?b1 ?st1 ?res ?st2 ?cs] h e
  have "map_of [(''u1'', Count 1)] ''unknown'' = None"
    by auto
  with run s u e show ?thesis by blast
qed

text \<open>
  C10 as stated (the key \<^verbatim>\<open>"unknown"\<close> never appears) fails for a request whose
  \<^verbatim>\<open>user.uid\<close> is the string \<^verbatim>\<open>"unknown"\<close>: the request succeeds, and the statistics
  count its entry under \<^verbatim>\<open>"unknown"\<close>.
\<close>

theorem uid_unknown_is_counted_under_unknown:
  "post_api_waste ''2024-05-01T10:00:00.000Z'' (Inr ''w1'')
        [(''type'', JStr ''Plastic''), (''volume'', JStr ''5 bags''), (''location'', JStr ''Zapote''),
         (''user'', JObj [(''uid'', JStr ''unknown'')])] empty_store
     = (\<lparr>status = 200, body = Added ''Waste entry added'' ''w1''\<rparr>,
        \<lparr>wasteEntries =
           [(''w1'', [(''type'', JStr ''Plastic''), (''volume'', JStr ''5 bags''),
                     (''location'', JStr ''Zapote''), (''submitterId'', JStr ''unknown''),
                     (''submitterEmail'', JNull),
                     (''createdAt'', JStr ''2024-05-01T10:00:00.000Z'')])],
         events = [], requests = 1\<rparr>)
   \<and> computeStats (map snd (wasteEntries (creations
        [(''2024-05-01T10:00:00.000Z'', Inr ''w1'',
          [(''type'', JStr ''Plastic''), (''volume'', JStr ''5 bags''), (''location'', JStr ''Zapote''),
           (''user'', JObj [(''uid'', JStr ''unknown'')])])] empty_store)))
     = Inr \<lparr>totalEntries = 1, totalsByType = [(''Plastic'', Count 1)],
            totalsByUser = [(''unknown'', Count 1)]\<rparr>
   \<and> map_of [(''unknown'', Count 1)] ''unknown'' = Some (Count 1)"
  by (simp add: stats_eval post_api_waste_def add_def opt_prop_def issued_def empty_store_def)

end
